theory Spec2Isabelle
  imports Main
begin

section \<open>Python values shared by the actors\<close>

text \<open>
  Python strings are sequences of code points and \<open>len\<close> counts code points, so a
  Python \<open>str\<close> is modelled as the list of its code points. Log and error messages,
  which the claims only compare for equality, are plain ASCII \<open>string\<close>s.
\<close>

type_synonym unicode = "nat list"

text \<open>
  The exceptions that reach an \<open>except Exception\<close> clause of the modelled code.
  \<open>StorageError\<close> stands for any exception raised by the storage collaborator (asyncpg,
  the connection pool), carrying its message.
\<close>

datatype exn =
    KeyError string
  | AttributeError string
  | ValueError string
  | TimeoutError
  | StorageError string
  | ServiceError string

fun str_of_exn :: "exn \<Rightarrow> string" where
  "str_of_exn (KeyError k) = [CHR 0x27] @ k @ [CHR 0x27]"
| "str_of_exn (AttributeError m) = m"
| "str_of_exn (ValueError m) = m"
| "str_of_exn TimeoutError = []"
| "str_of_exn (StorageError m) = m"
| "str_of_exn (ServiceError m) = m"

text \<open>
  What awaiting a coroutine can do: return a value, raise, or never complete.
  \<open>Blocked\<close> is a coroutine suspended on something that will never be signalled.
\<close>

datatype 'a outcome = Returned 'a | Raised exn | Blocked

section \<open>The storage collaborator as seen by the memory actor\<close>

text \<open>
  Table \<open>stm_buffer\<close>. The INSERT statements of the source supply \<open>user_id\<close>,
  \<open>role\<close>, \<open>content\<close>, \<open>emotion\<close> and \<open>mode\<close>; \<open>id\<close> and \<open>created_at\<close> are
  assigned by the table (its declaration, \<open>database/schema.sql\<close>, is not part of the
  sources, so the two defaults are the fields \<open>next_id\<close> and \<open>db_now\<close> of the
  database state).
\<close>

datatype role = User | Assistant

record stm_row =
  row_id :: nat
  row_user_id :: int
  row_role :: role
  row_content :: unicode
  row_emotion :: "unicode option"
  row_mode :: "unicode option"
  created_at :: nat

text \<open>
  Every awaited storage interaction (acquiring a connection and running one statement on
  it) may raise. \<open>faults\<close> scripts the upcoming interactions: \<open>Some m\<close> makes the next
  one raise \<open>StorageError m\<close>, \<open>None\<close> (or an exhausted script) lets it succeed.
\<close>

record database =
  stm_buffer :: "stm_row list"
  next_id :: nat
  db_now :: nat
  faults :: "string option list"

definition storage_call :: "database \<Rightarrow> string option \<times> database" where
  "storage_call d = (case faults d of [] \<Rightarrow> (None, d) | f # fs \<Rightarrow> (f, d\<lparr>faults := fs\<rparr>))"

text \<open>\<open>SELECT COUNT(*) FROM stm_buffer WHERE user_id = $1\<close>\<close>

definition count_rows :: "database \<Rightarrow> int \<Rightarrow> nat" where
  "count_rows d uid = length (filter (\<lambda>r. row_user_id r = uid) (stm_buffer d))"

text \<open>
  \<open>... WHERE user_id = $1 ORDER BY created_at ASC\<close>. Rows with equal \<open>created_at\<close>
  are kept in insertion order (SQL leaves their order open); the descending order is the
  exact reverse.
\<close>

definition oldest_first :: "database \<Rightarrow> int \<Rightarrow> stm_row list" where
  "oldest_first d uid = sort_key created_at (filter (\<lambda>r. row_user_id r = uid) (stm_buffer d))"

definition newest_first :: "database \<Rightarrow> int \<Rightarrow> stm_row list" where
  "newest_first d uid = rev (oldest_first d uid)"

text \<open>\<open>INSERT INTO stm_buffer (...) VALUES (...) RETURNING id\<close>\<close>

definition insert_row ::
  "database \<Rightarrow> int \<Rightarrow> role \<Rightarrow> unicode \<Rightarrow> unicode option \<Rightarrow> unicode option \<Rightarrow> nat \<times> database" where
  "insert_row d uid rl c e m =
     (next_id d,
      d\<lparr>stm_buffer := stm_buffer d @
           [\<lparr>row_id = next_id d, row_user_id = uid, row_role = rl, row_content = c,
             row_emotion = e, row_mode = m, created_at = db_now d\<rparr>],
        next_id := Suc (next_id d)\<rparr>)"

text \<open>
  \<open>DELETE FROM stm_buffer WHERE id IN (SELECT id FROM stm_buffer WHERE user_id = $1
  ORDER BY created_at ASC LIMIT $2)\<close>
\<close>

definition delete_oldest :: "database \<Rightarrow> int \<Rightarrow> nat \<Rightarrow> database" where
  "delete_oldest d uid n =
     d\<lparr>stm_buffer :=
         filter (\<lambda>r. row_id r \<notin> set (map row_id (take n (oldest_first d uid)))) (stm_buffer d)\<rparr>"

section \<open>MemoryActor\<close>

text \<open>\<open>config/memory.py\<close>: \<open>MEMORY_CONFIG\<close>. Counts and limits are natural numbers.\<close>

record memory_config =
  stm_limit :: nat
  cleanup_batch_size :: nat
  query_timeout_seconds :: nat
  retry_attempts :: nat
  retry_delay_seconds :: nat
  context_max_length :: nat
  importance_threshold :: nat
  performance_log_enabled :: bool

definition MEMORY_CONFIG :: memory_config where
  "MEMORY_CONFIG =
     \<lparr>stm_limit = 25, cleanup_batch_size = 10, query_timeout_seconds = 30,
      retry_attempts = 3, retry_delay_seconds = 1, context_max_length = 5000,
      importance_threshold = 5, performance_log_enabled = True\<rparr>"

text \<open>
  The \<open>data\<close> dictionary of a message, by the keys the actor reads. \<open>None\<close> is an
  absent key (for \<open>emotion\<close> and \<open>mode\<close> also a key holding Python's \<open>None\<close>:
  \<open>data.get\<close> does not tell them apart).
\<close>

record msg_data =
  d_user_id :: "int option"
  d_content :: "unicode option"
  d_emotion :: "unicode option"
  d_mode :: "unicode option"
  d_limit :: "int option"

definition empty_data :: msg_data where
  "empty_data = \<lparr>d_user_id = None, d_content = None, d_emotion = None, d_mode = None, d_limit = None\<rparr>"

text \<open>
  A message is an \<open>ActorMessage\<close>, a dictionary (its \<open>type\<close> and \<open>data\<close> keys may be
  absent), or some other object, on which \<open>.get\<close> raises.
\<close>

datatype message =
    ActorMessage string msg_data
  | DictMessage "string option" "msg_data option"
  | OtherObject

record context_message =
  cm_id :: nat
  cm_role :: role
  cm_content :: unicode
  cm_emotion :: "unicode option"
  cm_mode :: "unicode option"
  cm_timestamp :: nat

text \<open>The dictionaries (and the \<open>None\<close>) that the operations return, one constructor a shape.\<close>

datatype result =
    StoreOk nat nat
  | Failure string
  | ContextOk "context_message list" nat nat
  | ContextFailure string
  | CleanupOk nat nat
  | StatsOk int nat nat nat "nat option" "nat option"
  | ErrorOnly string
  | PyNone

text \<open>\<open>'error' in result\<close> and \<open>result.get('success') is False\<close>.\<close>

fun has_error_key :: "result \<Rightarrow> bool" where
  "has_error_key (Failure m) = True"
| "has_error_key (ContextFailure m) = True"
| "has_error_key (ErrorOnly m) = True"
| "has_error_key r = False"

fun success_false :: "result \<Rightarrow> bool" where
  "success_false (Failure m) = True"
| "success_false (ContextFailure m) = True"
| "success_false r = False"

fun is_dict :: "result \<Rightarrow> bool" where
  "is_dict PyNone = False"
| "is_dict r = True"

text \<open>
  The actor. \<open>cleanup_tasks\<close> is \<open>self._cleanup_tasks\<close>, from a user id to the task
  registered for it; \<open>tasks\<close> lists the cleanup tasks the event loop has been given and
  that have not completed yet (task id and user id). \<open>sleeps\<close> logs the
  \<open>asyncio.sleep\<close> calls, \<open>utcnow\<close> is the clock read by \<open>datetime.utcnow()\<close>.
\<close>

record memory_actor =
  config :: memory_config
  db :: database
  cleanup_tasks :: "int \<rightharpoonup> nat"
  tasks :: "(nat \<times> int) list"
  next_task :: nat
  store_latency :: "nat list"
  retrieve_latency :: "nat list"
  cleanup_operations :: nat
  message_count :: nat
  error_count :: nat
  sleeps :: "nat list"
  utcnow :: nat

definition MemoryActor :: "database \<Rightarrow> memory_actor" where
  "MemoryActor database_connection =
     \<lparr>config = MEMORY_CONFIG, db = database_connection, cleanup_tasks = Map.empty,
      tasks = [], next_task = 0, store_latency = [], retrieve_latency = [],
      cleanup_operations = 0, message_count = 0, error_count = 0, sleeps = [], utcnow = 0\<rparr>"

text \<open>
  \<open>latencies.append(latency); if len(latencies) > 100: latencies.pop(0)\<close>. The latency
  is the difference of two readings of the clock, which does not advance inside one
  operation of the model.
\<close>

definition record_latency :: "nat list \<Rightarrow> nat list" where
  "record_latency ls = (let ls' = ls @ [0] in if length ls' > 100 then tl ls' else ls')"

subsection \<open>\<open>_get_conversation_context\<close>\<close>

definition message_dict :: "stm_row \<Rightarrow> context_message" where
  "message_dict msg =
     \<lparr>cm_id = row_id msg, cm_role = row_role msg, cm_content = row_content msg,
      cm_emotion = row_emotion msg, cm_mode = row_mode msg, cm_timestamp = created_at msg\<rparr>"

text \<open>
  The \<open>for msg in reversed(messages)\<close> loop with its \<open>break\<close>: the arguments are the
  cap, the rows still to visit, \<open>context_messages\<close> and \<open>total_length\<close>.
\<close>

fun accumulate ::
  "nat \<Rightarrow> stm_row list \<Rightarrow> context_message list \<Rightarrow> nat \<Rightarrow> context_message list \<times> nat" where
  "accumulate cap [] context_messages total_length = (context_messages, total_length)"
| "accumulate cap (msg # rest) context_messages total_length =
     (let message_length = length (row_content msg) in
      if total_length + message_length > cap then (context_messages, total_length)
      else accumulate cap rest (context_messages @ [message_dict msg])
             (total_length + message_length))"

text \<open>
  \<open>data['user_id']\<close> is read before the \<open>try\<close>, so a missing key raises out of the
  operation. A negative \<open>LIMIT\<close> is rejected by the database.
\<close>

definition get_conversation_context ::
  "memory_actor \<Rightarrow> msg_data \<Rightarrow> result outcome \<times> memory_actor" where
  "get_conversation_context a data =
     (case d_user_id data of
        None \<Rightarrow> (Raised (KeyError ''user_id''), a)
      | Some user_id \<Rightarrow>
          (let limit = (case d_limit data of None \<Rightarrow> int (stm_limit (config a)) | Some l \<Rightarrow> l) in
           case storage_call (db a) of
             (Some m, d') \<Rightarrow> (Returned (ContextFailure m), a\<lparr>db := d'\<rparr>)
           | (None, d') \<Rightarrow>
               if limit < 0
               then (Returned (ContextFailure ''LIMIT must not be negative''), a\<lparr>db := d'\<rparr>)
               else
                 (let messages = take (nat limit) (newest_first d' user_id);
                      (context_messages, total_length) =
                         accumulate (context_max_length (config a)) (rev messages) [] 0;
                      a' = a\<lparr>db := d'\<rparr>;
                      a'' = (if performance_log_enabled (config a)
                             then a'\<lparr>retrieve_latency := record_latency (retrieve_latency a')\<rparr>
                             else a')
                  in (Returned (ContextOk context_messages (length context_messages) total_length),
                      a''))))"

subsection \<open>\<open>_cleanup_old_messages\<close>\<close>

text \<open>
  Two storage interactions: the COUNT and, when the count exceeds the limit, the DELETE.
  The reported \<open>deleted_count\<close> is \<open>excess\<close> and the reported \<open>remaining_count\<close>
  is the limit, whatever the DELETE removed.
\<close>

definition cleanup_old_messages ::
  "memory_actor \<Rightarrow> msg_data \<Rightarrow> result outcome \<times> memory_actor" where
  "cleanup_old_messages a data =
     (case d_user_id data of
        None \<Rightarrow> (Raised (KeyError ''user_id''), a)
      | Some user_id \<Rightarrow>
          (case storage_call (db a) of
             (Some m, d') \<Rightarrow> (Returned (Failure m), a\<lparr>db := d'\<rparr>)
           | (None, d') \<Rightarrow>
               (let count = count_rows d' user_id in
                if count > stm_limit (config a) then
                  (let excess = count - stm_limit (config a) in
                   case storage_call d' of
                     (Some m, d'') \<Rightarrow> (Returned (Failure m), a\<lparr>db := d''\<rparr>)
                   | (None, d'') \<Rightarrow>
                       (Returned (CleanupOk excess (stm_limit (config a))),
                        a\<lparr>db := delete_oldest d'' user_id (excess + cleanup_batch_size (config a)),
                          cleanup_operations := cleanup_operations a + 1\<rparr>))
                else (Returned (CleanupOk 0 count), a\<lparr>db := d'\<rparr>))))"

subsection \<open>\<open>_check_and_cleanup\<close>\<close>

text \<open>
  The part after the membership test: the awaited COUNT and, when the count exceeds the
  limit, \<open>asyncio.create_task\<close> and the registration of the task under the user id.
  Any exception of the COUNT is logged and swallowed.
\<close>

definition count_and_spawn :: "memory_actor \<Rightarrow> int \<Rightarrow> memory_actor" where
  "count_and_spawn a user_id =
     (case storage_call (db a) of
        (Some m, d') \<Rightarrow> a\<lparr>db := d'\<rparr>
      | (None, d') \<Rightarrow>
          if count_rows d' user_id > stm_limit (config a)
          then a\<lparr>db := d',
                 tasks := tasks a @ [(next_task a, user_id)],
                 cleanup_tasks := (cleanup_tasks a)(user_id \<mapsto> next_task a),
                 next_task := Suc (next_task a)\<rparr>
          else a\<lparr>db := d'\<rparr>)"

definition check_and_cleanup :: "memory_actor \<Rightarrow> int \<Rightarrow> memory_actor" where
  "check_and_cleanup a user_id =
     (if user_id \<in> dom (cleanup_tasks a) then a else count_and_spawn a user_id)"

text \<open>
  A cleanup task runs to completion: \<open>_cleanup_old_messages\<close> for its user (it catches
  its own errors), then the done callback \<open>self._cleanup_tasks.pop(user_id, None)\<close>.
\<close>

definition complete_task :: "memory_actor \<Rightarrow> nat \<times> int \<Rightarrow> memory_actor" where
  "complete_task a t =
     (let a' = snd (cleanup_old_messages a (empty_data\<lparr>d_user_id := Some (snd t)\<rparr>)) in
      a'\<lparr>tasks := remove1 t (tasks a'),
         cleanup_tasks := (cleanup_tasks a')(snd t := None)\<rparr>)"

subsection \<open>\<open>_store_user_message\<close>\<close>

text \<open>
  The body of \<open>for attempt in range(self.retry_attempts)\<close>, over the attempts still to
  run. An attempt that raises sleeps and continues while
  \<open>attempt < self.retry_attempts - 1\<close>, and re-raises otherwise; a loop that ends
  without returning lets the function fall off its end.
\<close>

fun store_loop ::
  "memory_actor \<Rightarrow> int \<Rightarrow> unicode \<Rightarrow> unicode option \<Rightarrow> unicode option \<Rightarrow> nat list
     \<Rightarrow> result outcome \<times> memory_actor" where
  "store_loop a user_id content emotion mode [] = (Returned PyNone, a)"
| "store_loop a user_id content emotion mode (attempt # rest) =
     (case storage_call (db a) of
        (Some m, d') \<Rightarrow>
          if int attempt < int (retry_attempts (config a)) - 1
          then store_loop (a\<lparr>db := d', sleeps := sleeps a @ [retry_delay_seconds (config a)]\<rparr>)
                 user_id content emotion mode rest
          else (Raised (StorageError m), a\<lparr>db := d'\<rparr>)
      | (None, d') \<Rightarrow>
          (let (message_id, d'') = insert_row d' user_id User content emotion mode;
               a1 = check_and_cleanup (a\<lparr>db := d''\<rparr>) user_id;
               a2 = (if performance_log_enabled (config a1)
                     then a1\<lparr>store_latency := record_latency (store_latency a1)\<rparr>
                     else a1)
           in (Returned (StoreOk message_id (utcnow a2)), a2)))"

text \<open>
  \<open>data['user_id']\<close> and \<open>data['content']\<close> are read before the outer \<open>try\<close>; the
  outer \<open>except Exception\<close> turns whatever the loop raises into a dictionary.
\<close>

definition store_user_message ::
  "memory_actor \<Rightarrow> msg_data \<Rightarrow> result outcome \<times> memory_actor" where
  "store_user_message a data =
     (case d_user_id data of
        None \<Rightarrow> (Raised (KeyError ''user_id''), a)
      | Some user_id \<Rightarrow>
          (case d_content data of
             None \<Rightarrow> (Raised (KeyError ''content''), a)
           | Some content \<Rightarrow>
               (case store_loop a user_id content (d_emotion data) (d_mode data)
                       [0 ..< retry_attempts (config a)] of
                  (Raised e, a') \<Rightarrow> (Returned (Failure (str_of_exn e)), a')
                | r \<Rightarrow> r)))"

subsection \<open>\<open>_store_bot_response\<close>\<close>

definition store_bot_response ::
  "memory_actor \<Rightarrow> msg_data \<Rightarrow> result outcome \<times> memory_actor" where
  "store_bot_response a data =
     (case d_user_id data of
        None \<Rightarrow> (Raised (KeyError ''user_id''), a)
      | Some user_id \<Rightarrow>
          (case d_content data of
             None \<Rightarrow> (Raised (KeyError ''content''), a)
           | Some content \<Rightarrow>
               (case storage_call (db a) of
                  (Some m, d') \<Rightarrow> (Returned (Failure m), a\<lparr>db := d'\<rparr>)
                | (None, d') \<Rightarrow>
                    (let (message_id, d'') = insert_row d' user_id Assistant content None (d_mode data)
                     in (Returned (StoreOk message_id (utcnow a)), a\<lparr>db := d''\<rparr>)))))"

subsection \<open>\<open>_get_user_stats\<close>\<close>

definition get_user_stats ::
  "memory_actor \<Rightarrow> msg_data \<Rightarrow> result outcome \<times> memory_actor" where
  "get_user_stats a data =
     (case d_user_id data of
        None \<Rightarrow> (Raised (KeyError ''user_id''), a)
      | Some user_id \<Rightarrow>
          (case storage_call (db a) of
             (Some m, d') \<Rightarrow> (Returned (Failure m), a\<lparr>db := d'\<rparr>)
           | (None, d') \<Rightarrow>
               (let rows = filter (\<lambda>r. row_user_id r = user_id) (stm_buffer d');
                    stamps = map created_at rows
                in (Returned
                      (StatsOk user_id (length rows)
                         (length (filter (\<lambda>r. row_role r = User) rows))
                         (length (filter (\<lambda>r. row_role r = Assistant) rows))
                         (case stamps of [] \<Rightarrow> None | t # ts \<Rightarrow> Some (fold min ts t))
                         (case stamps of [] \<Rightarrow> None | t # ts \<Rightarrow> Some (fold max ts t))),
                    a\<lparr>db := d'\<rparr>))))"

subsection \<open>\<open>handle_message\<close>\<close>

text \<open>\<open>f"Unknown message type: {message_type}"\<close>: an absent type prints as \<open>None\<close>.\<close>

definition unknown_type_text :: "string option \<Rightarrow> string" where
  "unknown_type_text t =
     ''Unknown message type: '' @ (case t of None \<Rightarrow> ''None'' | Some s \<Rightarrow> s)"

definition dispatch ::
  "memory_actor \<Rightarrow> string option \<Rightarrow> msg_data \<Rightarrow> result outcome \<times> memory_actor" where
  "dispatch a message_type data =
     (if message_type = Some ''store_user_message'' then store_user_message a data
      else if message_type = Some ''store_bot_response'' then store_bot_response a data
      else if message_type = Some ''get_conversation_context'' then get_conversation_context a data
      else if message_type = Some ''cleanup_old_messages'' then cleanup_old_messages a data
      else if message_type = Some ''get_user_stats'' then get_user_stats a data
      else (Returned (ErrorOnly (unknown_type_text message_type)), a))"

text \<open>
  The type and the data of the message: attributes of an \<open>ActorMessage\<close>, otherwise
  \<open>message.get('type')\<close> and \<open>message.get('data', {})\<close>.
\<close>

definition type_and_data :: "message \<Rightarrow> exn + (string option \<times> msg_data)" where
  "type_and_data message =
     (case message of
        ActorMessage t d \<Rightarrow> Inr (Some t, d)
      | DictMessage t d \<Rightarrow> Inr (t, case d of None \<Rightarrow> empty_data | Some d' \<Rightarrow> d')
      | OtherObject \<Rightarrow> Inl (AttributeError ''object has no attribute get''))"

definition handle_message :: "memory_actor \<Rightarrow> message \<Rightarrow> result outcome \<times> memory_actor" where
  "handle_message a message =
     (let a1 = a\<lparr>message_count := message_count a + 1\<rparr> in
      case type_and_data message of
        Inl e \<Rightarrow> (Returned (ErrorOnly (str_of_exn e)), a1\<lparr>error_count := error_count a1 + 1\<rparr>)
      | Inr (message_type, data) \<Rightarrow>
          (case dispatch a1 message_type data of
             (Raised e, a2) \<Rightarrow>
               (Returned (ErrorOnly (str_of_exn e)), a2\<lparr>error_count := error_count a2 + 1\<rparr>)
           | r \<Rightarrow> r))"

section \<open>Example states\<close>

text \<open>
  A small table (three turns of user 7, one of user 8) and an actor whose limits are small
  enough to be reached by it.
\<close>

definition example_rows :: "stm_row list" where
  "example_rows =
     [\<lparr>row_id = 0, row_user_id = 7, row_role = User, row_content = [104, 105, 33],
       row_emotion = None, row_mode = None, created_at = 1\<rparr>,
      \<lparr>row_id = 1, row_user_id = 7, row_role = Assistant, row_content = [111, 107],
       row_emotion = None, row_mode = None, created_at = 2\<rparr>,
      \<lparr>row_id = 2, row_user_id = 8, row_role = User, row_content = [63],
       row_emotion = None, row_mode = None, created_at = 3\<rparr>,
      \<lparr>row_id = 3, row_user_id = 7, row_role = User, row_content = [98, 121, 101, 33],
       row_emotion = None, row_mode = None, created_at = 4\<rparr>]"

definition example_db :: database where
  "example_db = \<lparr>stm_buffer = example_rows, next_id = 4, db_now = 5, faults = []\<rparr>"

definition small_config :: memory_config where
  "small_config = MEMORY_CONFIG\<lparr>stm_limit := 2, cleanup_batch_size := 1, context_max_length := 6\<rparr>"

definition example_actor :: memory_actor where
  "example_actor = (MemoryActor example_db)\<lparr>config := small_config\<rparr>"

definition data_for :: "int \<Rightarrow> msg_data" where
  "data_for uid = empty_data\<lparr>d_user_id := Some uid\<rparr>"

section \<open>Properties of the storage model\<close>

text \<open>The first \<open>n\<close> scripted storage interactions succeed.\<close>

definition storage_ok :: "nat \<Rightarrow> database \<Rightarrow> bool" where
  "storage_ok n d = list_all (\<lambda>f. f = None) (take n (faults d))"

lemma storage_call_table: "stm_buffer (snd (storage_call d)) = stm_buffer d"
  by (simp add: storage_call_def split: list.splits)

lemma storage_call_newest: "newest_first (snd (storage_call d)) uid = newest_first d uid"
  by (simp add: newest_first_def oldest_first_def storage_call_table)

lemma storage_ok_step:
  "storage_ok (Suc n) d \<Longrightarrow> fst (storage_call d) = None \<and> storage_ok n (snd (storage_call d))"
  by (cases "faults d") (auto simp: storage_ok_def storage_call_def)

lemma length_oldest_first: "length (oldest_first d uid) = count_rows d uid"
  by (simp add: oldest_first_def count_rows_def)

lemma set_oldest_first: "set (oldest_first d uid) \<subseteq> set (stm_buffer d)"
  by (auto simp: oldest_first_def)

lemma distinct_oldest_first: "distinct (stm_buffer d) \<Longrightarrow> distinct (oldest_first d uid)"
  by (simp add: oldest_first_def)

lemma example_oldest_7:
  "oldest_first example_db 7 = [example_rows ! 0, example_rows ! 1, example_rows ! 3]"
  by (simp add: oldest_first_def example_db_def example_rows_def)

lemma example_oldest_8: "oldest_first example_db 8 = [example_rows ! 2]"
  by (simp add: oldest_first_def example_db_def example_rows_def)

lemma example_storage_call: "storage_call example_db = (None, example_db)"
  by (simp add: storage_call_def example_db_def)

text \<open>
  What the two orderings select. The rows of a user in ascending \<open>created_at\<close> order
  are the user's rows of the table, each as often as it occurs there; the first \<open>n\<close> of
  them are no newer than the others, and the last \<open>n\<close> no older.
\<close>

lemma count_list_insort_key: "count_list (insort_key k x xs) y = count_list (x # xs) y"
  by (induction xs) auto

lemma count_list_sort_key: "count_list (sort_key k xs) y = count_list xs y"
proof (induction xs)
  case Nil
  show ?case by simp
next
  case (Cons x xs)
  have "count_list (sort_key k (x # xs)) y = count_list (insort_key k x (sort_key k xs)) y"
    by (simp add: sort_key_simps)
  also have "... = count_list (x # sort_key k xs) y" by (rule count_list_insort_key)
  finally show ?case using Cons.IH by simp
qed

lemma count_list_take_drop: "count_list xs y = count_list (take n xs) y + count_list (drop n xs) y"
  using count_list_append[of "take n xs" "drop n xs" y] by simp

lemma sorted_take_le_drop:
  assumes "sorted (map k xs)" "v \<in> set (take n xs)" "r \<in> set (drop n xs)"
  shows "k v \<le> k r"
proof -
  have "sorted (map k (take n xs) @ map k (drop n xs))"
    using assms(1) by (simp flip: map_append)
  then show ?thesis using assms(2,3) by (auto simp: sorted_append)
qed

lemma oldest_first_sorted: "sorted (map created_at (oldest_first d uid))"
  by (simp add: oldest_first_def)

lemma oldest_first_count:
  "count_list (oldest_first d uid) r = count_list (filter (\<lambda>r. row_user_id r = uid) (stm_buffer d)) r"
  by (simp add: oldest_first_def count_list_sort_key)

lemma oldest_first_set:
  "set (oldest_first d uid) = {r \<in> set (stm_buffer d). row_user_id r = uid}"
  by (auto simp: oldest_first_def)

lemma most_recent_rows:
  assumes "chron = rev (take n (newest_first d uid))"
  shows "\<exists>older.
           (\<forall>r. count_list (filter (\<lambda>r. row_user_id r = uid) (stm_buffer d)) r
                  = count_list older r + count_list chron r) \<and>
           (\<forall>r \<in> set older. \<forall>c \<in> set chron. created_at r \<le> created_at c) \<and>
           sorted (map created_at chron) \<and>
           length chron = min n (length (filter (\<lambda>r. row_user_id r = uid) (stm_buffer d)))"
proof -
  let ?S = "oldest_first d uid"
  let ?m = "length ?S - n"
  have ch: "chron = drop ?m ?S"
    using assms by (simp add: newest_first_def rev_take)
  have len: "length ?S = length (filter (\<lambda>r. row_user_id r = uid) (stm_buffer d))"
    by (simp add: oldest_first_def)
  have a: "\<forall>r. count_list (filter (\<lambda>r. row_user_id r = uid) (stm_buffer d)) r
                  = count_list (take ?m ?S) r + count_list chron r"
    using count_list_take_drop[of ?S _ ?m] by (simp add: ch oldest_first_count)
  have b: "\<forall>r \<in> set (take ?m ?S). \<forall>c \<in> set chron. created_at r \<le> created_at c"
    unfolding ch using sorted_take_le_drop[OF oldest_first_sorted] by blast
  have c: "sorted (map created_at chron)"
    unfolding ch using oldest_first_sorted[of d uid] by (simp add: drop_map[symmetric] sorted_wrt_drop)
  have e: "length chron = min n (length (filter (\<lambda>r. row_user_id r = uid) (stm_buffer d)))"
    unfolding ch using len by simp
  from a b c e show ?thesis by blast
qed

text \<open>With unique ids, deleting by id deletes exactly the selected rows.\<close>

lemma filter_ids:
  assumes "distinct (map row_id xs)" "set vs \<subseteq> set xs"
  shows "filter (\<lambda>r. row_id r \<notin> set (map row_id vs)) xs = filter (\<lambda>r. r \<notin> set vs) xs"
proof (rule filter_cong[OF refl])
  fix r assume r: "r \<in> set xs"
  have inj: "inj_on row_id (set xs)" using assms(1) by (simp add: distinct_map)
  show "(row_id r \<notin> set (map row_id vs)) = (r \<notin> set vs)"
    using inj r assms(2) by (auto dest: inj_onD)
qed

lemma length_filter_out:
  assumes "distinct xs" "distinct vs" "set vs \<subseteq> set xs"
  shows "length (filter (\<lambda>r. r \<notin> set vs) xs) = length xs - length vs"
proof -
  have "length (filter (\<lambda>r. r \<notin> set vs) xs) = card ({r. r \<notin> set vs} \<inter> set xs)"
    using assms(1) by (rule distinct_length_filter)
  also have "{r. r \<notin> set vs} \<inter> set xs = set xs - set vs" by auto
  also have "card (set xs - set vs) = card (set xs) - card (set vs)"
    using assms(3) by (simp add: card_Diff_subset)
  finally show ?thesis using assms(1,2) by (simp add: distinct_card)
qed

section \<open>The conversation context\<close>

text \<open>
  The loop returns a prefix of the rows it is given: it stays within the cap, and when it
  stops early the next row would have exceeded the cap.
\<close>

lemma accumulate_prefix:
  "tot \<le> cap \<Longrightarrow>
   \<exists>k \<le> length rows.
     accumulate cap rows ctx tot =
       (ctx @ map message_dict (take k rows),
        tot + sum_list (map (\<lambda>r. length (row_content r)) (take k rows))) \<and>
     tot + sum_list (map (\<lambda>r. length (row_content r)) (take k rows)) \<le> cap \<and>
     (k < length rows \<longrightarrow>
        cap < tot + sum_list (map (\<lambda>r. length (row_content r)) (take k rows))
                + length (row_content (rows ! k)))"
proof (induction rows arbitrary: ctx tot)
  case Nil
  then show ?case by simp
next
  case (Cons msg rest)
  show ?case
  proof (cases "tot + length (row_content msg) > cap")
    case True
    with Cons.prems show ?thesis
      by (intro exI[of _ 0]) simp
  next
    case False
    then have le: "tot + length (row_content msg) \<le> cap" by simp
    from Cons.IH[OF le, of "ctx @ [message_dict msg]"]
    obtain k where k: "k \<le> length rest"
      "accumulate cap rest (ctx @ [message_dict msg]) (tot + length (row_content msg)) =
        ((ctx @ [message_dict msg]) @ map message_dict (take k rest),
         (tot + length (row_content msg)) + sum_list (map (\<lambda>r. length (row_content r)) (take k rest)))"
      "(tot + length (row_content msg)) + sum_list (map (\<lambda>r. length (row_content r)) (take k rest)) \<le> cap"
      "k < length rest \<longrightarrow>
        cap < (tot + length (row_content msg)) + sum_list (map (\<lambda>r. length (row_content r)) (take k rest))
                + length (row_content (rest ! k))"
      by blast
    show ?thesis
      using False k by (intro exI[of _ "Suc k"]) (simp add: Let_def add.assoc)
  qed
qed

text \<open>
  Claim C5. For a message that names the user, a limit that is not negative (the given one,
  or \<open>stm_limit\<close> when the message gives none) and a storage call that succeeds,
  \<open>_get_conversation_context\<close> takes the \<open>limit\<close> most recent rows of the user
  (newest first) and reverses them into chronological order \<open>chron\<close>: \<open>chron\<close> is
  in ascending \<open>created_at\<close> order, it has \<open>limit\<close> rows (all the user's rows when
  there are fewer), and together with the rows \<open>older\<close> that the query leaves out it
  makes up the user's rows of the table, none of the rows left out being newer than a row
  of \<open>chron\<close>. The operation returns a prefix of \<open>chron\<close>, each row as the
  dictionary of its id, role, content, emotion, mode and creation time, with its count and
  its total number of characters: the total stays within \<open>context_max_length\<close>, and
  if a row of \<open>chron\<close> is left out, the first such row would have pushed the total over
  the cap. The returned list may be empty.
\<close>

theorem get_conversation_context_greedy_prefix:
  assumes uid: "d_user_id data = Some user_id"
    and lim: "limit = (case d_limit data of None \<Rightarrow> int (stm_limit (config a)) | Some l \<Rightarrow> l)"
    and nonneg: "0 \<le> limit"
    and ok: "fst (storage_call (db a)) = None"
    and chron: "chron = rev (take (nat limit) (newest_first (db a) user_id))"
  shows "\<exists>msgs tot a' older.
           get_conversation_context a data = (Returned (ContextOk msgs (length msgs) tot), a') \<and>
           (\<forall>r. count_list (filter (\<lambda>r. row_user_id r = user_id) (stm_buffer (db a))) r
                  = count_list older r + count_list chron r) \<and>
           (\<forall>r \<in> set older. \<forall>c \<in> set chron. created_at r \<le> created_at c) \<and>
           sorted (map created_at chron) \<and>
           length chron
             = min (nat limit) (length (filter (\<lambda>r. row_user_id r = user_id) (stm_buffer (db a)))) \<and>
           length msgs \<le> length chron \<and>
           msgs = map message_dict (take (length msgs) chron) \<and>
           msgs = map (\<lambda>r. \<lparr>cm_id = row_id r, cm_role = row_role r, cm_content = row_content r,
                              cm_emotion = row_emotion r, cm_mode = row_mode r,
                              cm_timestamp = created_at r\<rparr>) (take (length msgs) chron) \<and>
           tot = sum_list (map (\<lambda>r. length (row_content r)) (take (length msgs) chron)) \<and>
           tot \<le> context_max_length (config a) \<and>
           (length msgs < length chron \<longrightarrow>
              context_max_length (config a) < tot + length (row_content (chron ! length msgs)))"
proof -
  obtain d' where sc: "storage_call (db a) = (None, d')"
    using ok by (cases "storage_call (db a)") simp
  have nf: "newest_first d' user_id = newest_first (db a) user_id"
    using storage_call_newest[of "db a" user_id] sc by simp
  from accumulate_prefix[of 0 "context_max_length (config a)" chron "[]"]
  obtain k where k: "k \<le> length chron"
    "accumulate (context_max_length (config a)) chron [] 0 =
       (map message_dict (take k chron),
        sum_list (map (\<lambda>r. length (row_content r)) (take k chron)))"
    "sum_list (map (\<lambda>r. length (row_content r)) (take k chron)) \<le> context_max_length (config a)"
    "k < length chron \<longrightarrow>
       context_max_length (config a)
         < sum_list (map (\<lambda>r. length (row_content r)) (take k chron)) + length (row_content (chron ! k))"
    by auto
  have len: "length (map message_dict (take k chron)) = k"
    using k(1) by simp
  have run: "get_conversation_context a data =
      (Returned (ContextOk (map message_dict (take k chron)) k
                  (sum_list (map (\<lambda>r. length (row_content r)) (take k chron)))),
       snd (get_conversation_context a data))"
    using uid lim nonneg sc nf chron k(2) len
    by (simp add: get_conversation_context_def Let_def split: option.splits)
  have fields: "map message_dict (take k chron)
                  = map (\<lambda>r. \<lparr>cm_id = row_id r, cm_role = row_role r, cm_content = row_content r,
                              cm_emotion = row_emotion r, cm_mode = row_mode r,
                              cm_timestamp = created_at r\<rparr>) (take k chron)"
    by (simp add: message_dict_def)
  from most_recent_rows[OF chron]
  obtain older where older:
    "\<forall>r. count_list (filter (\<lambda>r. row_user_id r = user_id) (stm_buffer (db a))) r
            = count_list older r + count_list chron r"
    "\<forall>r \<in> set older. \<forall>c \<in> set chron. created_at r \<le> created_at c"
    "sorted (map created_at chron)"
    "length chron
       = min (nat limit) (length (filter (\<lambda>r. row_user_id r = user_id) (stm_buffer (db a))))"
    by blast
  have rest: "length (map message_dict (take k chron)) \<le> length chron \<and>
           map message_dict (take k chron)
             = map message_dict (take (length (map message_dict (take k chron))) chron) \<and>
           map message_dict (take k chron)
             = map (\<lambda>r. \<lparr>cm_id = row_id r, cm_role = row_role r, cm_content = row_content r,
                              cm_emotion = row_emotion r, cm_mode = row_mode r,
                              cm_timestamp = created_at r\<rparr>)
                 (take (length (map message_dict (take k chron))) chron) \<and>
           sum_list (map (\<lambda>r. length (row_content r)) (take k chron))
             = sum_list (map (\<lambda>r. length (row_content r))
                 (take (length (map message_dict (take k chron))) chron)) \<and>
           sum_list (map (\<lambda>r. length (row_content r)) (take k chron)) \<le> context_max_length (config a) \<and>
           (length (map message_dict (take k chron)) < length chron \<longrightarrow>
              context_max_length (config a)
                < sum_list (map (\<lambda>r. length (row_content r)) (take k chron))
                  + length (row_content (chron ! length (map message_dict (take k chron)))))"
    unfolding len using k(1,3,4) fields by simp
  have run': "get_conversation_context a data =
      (Returned (ContextOk (map message_dict (take k chron))
                  (length (map message_dict (take k chron)))
                  (sum_list (map (\<lambda>r. length (row_content r)) (take k chron)))),
       snd (get_conversation_context a data))"
    unfolding len by (rule run)
  show ?thesis
    apply (rule exI[of _ "map message_dict (take k chron)"])
    apply (rule exI[of _ "sum_list (map (\<lambda>r. length (row_content r)) (take k chron))"])
    apply (rule exI[of _ "snd (get_conversation_context a data)"])
    apply (rule exI[of _ older])
    apply (rule conjI[OF run'])
    apply (rule conjI[OF older(1)])
    apply (rule conjI[OF older(2)])
    apply (rule conjI[OF older(3)])
    apply (rule conjI[OF older(4)])
    apply (rule rest)
    done
qed

text \<open>
  The theorem at the example actor (cap 6) with limit 3: the three turns of user 7 have
  3, 2 and 4 characters, so the first two are returned (5 characters) and the third,
  which would make 9, is left out. With limit 2 the oldest turn is not fetched, and the
  second turn alone is returned: the newest, which would make 6 characters with it,
  fits.
\<close>

theorem get_conversation_context_greedy_prefix_witness:
  "(\<exists>msgs tot a'.
     get_conversation_context example_actor ((data_for 7)\<lparr>d_limit := Some 3\<rparr>)
       = (Returned (ContextOk msgs (length msgs) tot), a') \<and>
     msgs = map message_dict [example_rows ! 0, example_rows ! 1] \<and>
     map cm_content msgs = [[104, 105, 33], [111, 107]] \<and> map cm_timestamp msgs = [1, 2] \<and>
     tot = 5 \<and>
     length msgs < length (rev (take (nat 3) (newest_first (db example_actor) 7))) \<and>
     context_max_length (config example_actor)
       < tot + length (row_content (rev (take (nat 3) (newest_first (db example_actor) 7)) ! length msgs))) \<and>
   (\<exists>msgs tot a'.
     get_conversation_context example_actor ((data_for 7)\<lparr>d_limit := Some 2\<rparr>)
       = (Returned (ContextOk msgs (length msgs) tot), a') \<and>
     map cm_content msgs = [[111, 107], [98, 121, 101, 33]] \<and> map cm_timestamp msgs = [2, 4] \<and>
     tot = 6 \<and>
     sorted (map created_at (rev (take (nat 2) (newest_first (db example_actor) 7)))) \<and>
     length (rev (take (nat 2) (newest_first (db example_actor) 7))) = 2)"
proof -
  let ?D = "(data_for 7)\<lparr>d_limit := Some 3\<rparr>"
  let ?chron = "rev (take (nat 3) (newest_first (db example_actor) 7))"
  have h1: "d_user_id ?D = Some 7" by (simp add: data_for_def)
  have h2: "(3::int) = (case d_limit ?D of
                 None \<Rightarrow> int (stm_limit (config example_actor)) | Some l \<Rightarrow> l)" by simp
  have h3: "(0::int) \<le> 3" by simp
  have h4: "fst (storage_call (db example_actor)) = None"
    by (simp add: storage_call_def example_actor_def MemoryActor_def example_db_def)
  have ch: "?chron = [example_rows ! 0, example_rows ! 1, example_rows ! 3]"
    by (simp add: example_actor_def MemoryActor_def newest_first_def example_oldest_7)
  have ev: "fst (get_conversation_context example_actor ?D) =
              Returned (ContextOk (map message_dict [example_rows ! 0, example_rows ! 1]) 2 5)"
    by (simp add: get_conversation_context_def data_for_def empty_data_def example_actor_def
          MemoryActor_def small_config_def MEMORY_CONFIG_def example_storage_call newest_first_def
          example_oldest_7 Let_def example_rows_def message_dict_def)
  from get_conversation_context_greedy_prefix[OF h1 h2 h3 h4 refl]
  obtain msgs tot a' where r:
    "get_conversation_context example_actor ?D = (Returned (ContextOk msgs (length msgs) tot), a')"
    "length msgs < length ?chron \<longrightarrow>
       context_max_length (config example_actor) < tot + length (row_content (?chron ! length msgs))"
    by blast
  from r(1) ev have m: "msgs = map message_dict [example_rows ! 0, example_rows ! 1]" "tot = 5"
    by simp_all
  have lt: "length msgs < length ?chron" using m ch by simp
  have cont: "map cm_content msgs = [[104, 105, 33], [111, 107]]" "map cm_timestamp msgs = [1, 2]"
    using m(1) by (simp_all add: message_dict_def example_rows_def)
  have A: "\<exists>msgs tot a'.
     get_conversation_context example_actor ?D = (Returned (ContextOk msgs (length msgs) tot), a') \<and>
     msgs = map message_dict [example_rows ! 0, example_rows ! 1] \<and>
     map cm_content msgs = [[104, 105, 33], [111, 107]] \<and> map cm_timestamp msgs = [1, 2] \<and>
     tot = 5 \<and> length msgs < length ?chron \<and>
     context_max_length (config example_actor) < tot + length (row_content (?chron ! length msgs))"
    by (rule exI[of _ msgs], rule exI[of _ tot], rule exI[of _ a'], intro conjI)
       (rule r(1) m cont lt r(2)[THEN mp, OF lt])+
  let ?E = "(data_for 7)\<lparr>d_limit := Some 2\<rparr>"
  let ?chron2 = "rev (take (nat 2) (newest_first (db example_actor) 7))"
  have g1: "d_user_id ?E = Some 7" by (simp add: data_for_def)
  have g2: "(2::int) = (case d_limit ?E of
                 None \<Rightarrow> int (stm_limit (config example_actor)) | Some l \<Rightarrow> l)" by simp
  have g3: "(0::int) \<le> 2" by simp
  have ev2: "fst (get_conversation_context example_actor ?E) =
              Returned (ContextOk (map message_dict [example_rows ! 1, example_rows ! 3]) 2 6)"
    by (simp add: get_conversation_context_def data_for_def empty_data_def example_actor_def
          MemoryActor_def small_config_def MEMORY_CONFIG_def example_storage_call newest_first_def
          example_oldest_7 Let_def example_rows_def message_dict_def)
  from get_conversation_context_greedy_prefix[OF g1 g2 g3 h4 refl]
  obtain msgs2 tot2 a2 where r2:
    "get_conversation_context example_actor ?E = (Returned (ContextOk msgs2 (length msgs2) tot2), a2)"
    "sorted (map created_at ?chron2)"
    "length ?chron2
       = min (nat 2) (length (filter (\<lambda>r. row_user_id r = 7) (stm_buffer (db example_actor))))"
    by blast
  from r2(1) ev2 have m2: "msgs2 = map message_dict [example_rows ! 1, example_rows ! 3]" "tot2 = 6"
    by simp_all
  have cont2: "map cm_content msgs2 = [[111, 107], [98, 121, 101, 33]]"
    "map cm_timestamp msgs2 = [2, 4]"
    using m2(1) by (simp_all add: message_dict_def example_rows_def)
  have l2: "length ?chron2 = 2"
    using r2(3) by (simp add: example_actor_def MemoryActor_def example_db_def example_rows_def)
  have B: "\<exists>msgs tot a'.
     get_conversation_context example_actor ?E = (Returned (ContextOk msgs (length msgs) tot), a') \<and>
     map cm_content msgs = [[111, 107], [98, 121, 101, 33]] \<and> map cm_timestamp msgs = [2, 4] \<and>
     tot = 6 \<and> sorted (map created_at ?chron2) \<and> length ?chron2 = 2"
    by (rule exI[of _ msgs2], rule exI[of _ tot2], rule exI[of _ a2], intro conjI)
       (rule r2(1,2) m2(2) cont2 l2)+
  from A B show ?thesis by (rule conjI)
qed

section \<open>The ring-buffer cleanup\<close>

text \<open>
  Claim C6. For a message that names the user, a table with unique row ids and storage
  calls that succeed: when the user's row count exceeds \<open>stm_limit\<close>,
  \<open>_cleanup_old_messages\<close> deletes exactly the rows selected by the LIMIT of
  \<open>(count - stm_limit) + cleanup_batch_size\<close> on the user's rows in ascending creation
  order (the \<open>victims\<close>). These are rows of the user, as many as the LIMIT says (all
  the user's rows when there are fewer, which cannot happen when \<open>cleanup_batch_size\<close>
  does not exceed \<open>stm_limit\<close>, as in \<open>MEMORY_CONFIG\<close>), and they are the oldest:
  no row of the user that stays in the table was created before a deleted one. The rows
  of other users stay. When the count is at or below the limit, the operation deletes
  nothing and reports \<open>deleted_count = 0\<close>.
\<close>

theorem cleanup_deletes_oldest_excess_plus_batch:
  assumes uid: "d_user_id data = Some user_id"
    and ok: "storage_ok 2 (db a)"
    and ids: "distinct (map row_id (stm_buffer (db a)))"
    and cnt: "count = length (filter (\<lambda>r. row_user_id r = user_id) (stm_buffer (db a)))"
    and vic: "victims = take ((count - stm_limit (config a)) + cleanup_batch_size (config a))
                          (oldest_first (db a) user_id)"
  shows "(stm_limit (config a) < count \<longrightarrow>
            (\<exists>a'. cleanup_old_messages a data =
                     (Returned (CleanupOk (count - stm_limit (config a)) (stm_limit (config a))), a') \<and>
                   stm_buffer (db a') = filter (\<lambda>r. r \<notin> set victims) (stm_buffer (db a)) \<and>
                   length (stm_buffer (db a')) = length (stm_buffer (db a)) - length victims \<and>
                   (\<forall>v \<in> set victims. v \<in> set (stm_buffer (db a)) \<and> row_user_id v = user_id) \<and>
                   distinct victims \<and>
                   length victims
                     = min ((count - stm_limit (config a)) + cleanup_batch_size (config a)) count \<and>
                   (\<forall>v \<in> set victims. \<forall>r \<in> set (stm_buffer (db a')).
                      row_user_id r = user_id \<longrightarrow> created_at v \<le> created_at r) \<and>
                   filter (\<lambda>r. row_user_id r \<noteq> user_id) (stm_buffer (db a'))
                     = filter (\<lambda>r. row_user_id r \<noteq> user_id) (stm_buffer (db a)) \<and>
                   (cleanup_batch_size (config a) \<le> stm_limit (config a) \<longrightarrow>
                      length victims = (count - stm_limit (config a)) + cleanup_batch_size (config a)))) \<and>
         (count \<le> stm_limit (config a) \<longrightarrow>
            (\<exists>a'. cleanup_old_messages a data = (Returned (CleanupOk 0 count), a') \<and>
                   stm_buffer (db a') = stm_buffer (db a)))"
proof -
  let ?n = "(count - stm_limit (config a)) + cleanup_batch_size (config a)"
  let ?S = "oldest_first (db a) user_id"
  obtain d1 where s1: "storage_call (db a) = (None, d1)" and ok1: "storage_ok 1 d1"
    using storage_ok_step[of 1 "db a"] ok by (cases "storage_call (db a)") (simp add: numeral_2_eq_2)
  obtain d2 where s2: "storage_call d1 = (None, d2)"
    using storage_ok_step[of 0 d1] ok1 by (cases "storage_call d1") simp
  have t1: "stm_buffer d1 = stm_buffer (db a)" using storage_call_table[of "db a"] s1 by simp
  have t2: "stm_buffer d2 = stm_buffer (db a)" using storage_call_table[of d1] s2 t1 by simp
  have c1: "count_rows d1 user_id = count" by (simp add: cnt count_rows_def t1)
  have o2: "oldest_first d2 user_id = oldest_first (db a) user_id" by (simp add: oldest_first_def t2)
  have sub: "set victims \<subseteq> set (stm_buffer (db a))"
    using set_oldest_first[of "db a" user_id] set_take_subset[of _ "oldest_first (db a) user_id"]
    unfolding vic by blast
  have dt: "distinct (stm_buffer (db a))" using ids by (simp add: distinct_map)
  have dv: "distinct victims" unfolding vic using distinct_oldest_first[OF dt] by simp
  have own: "\<forall>v \<in> set victims. v \<in> set (stm_buffer (db a)) \<and> row_user_id v = user_id"
  proof
    fix v assume "v \<in> set victims"
    then have "v \<in> set ?S" unfolding vic by (rule in_set_takeD)
    then show "v \<in> set (stm_buffer (db a)) \<and> row_user_id v = user_id"
      by (simp add: oldest_first_set)
  qed
  have lv: "length victims = min ?n count"
    unfolding vic by (simp add: length_oldest_first count_rows_def cnt)
  have old: "\<forall>v \<in> set victims. \<forall>r \<in> set (filter (\<lambda>r. r \<notin> set victims) (stm_buffer (db a))).
               row_user_id r = user_id \<longrightarrow> created_at v \<le> created_at r"
  proof (intro ballI impI)
    fix v r
    assume v: "v \<in> set victims"
      and r: "r \<in> set (filter (\<lambda>r. r \<notin> set victims) (stm_buffer (db a)))"
      and u: "row_user_id r = user_id"
    have "r \<in> set ?S" using r u by (simp add: oldest_first_set)
    then have "r \<in> set (take ?n ?S) \<union> set (drop ?n ?S)"
      by (simp flip: set_append)
    moreover have "r \<notin> set (take ?n ?S)" using r by (simp add: vic)
    ultimately have rd: "r \<in> set (drop ?n ?S)" by simp
    have vt: "v \<in> set (take ?n ?S)" using v by (simp add: vic)
    show "created_at v \<le> created_at r"
      by (rule sorted_take_le_drop[OF oldest_first_sorted vt rd])
  qed
  have others: "filter (\<lambda>r. row_user_id r \<noteq> user_id)
                  (filter (\<lambda>r. r \<notin> set victims) (stm_buffer (db a)))
                = filter (\<lambda>r. row_user_id r \<noteq> user_id) (stm_buffer (db a))"
    unfolding filter_filter by (rule filter_cong[OF refl]) (use own in auto)
  show ?thesis
  proof (intro conjI impI)
    assume gt: "stm_limit (config a) < count"
    have run: "cleanup_old_messages a data =
        (Returned (CleanupOk (count - stm_limit (config a)) (stm_limit (config a))),
         a\<lparr>db := delete_oldest d2 user_id ((count - stm_limit (config a)) + cleanup_batch_size (config a)),
           cleanup_operations := cleanup_operations a + 1\<rparr>)"
      using uid s1 s2 c1 gt by (simp add: cleanup_old_messages_def Let_def)
    have tab: "stm_buffer (delete_oldest d2 user_id ((count - stm_limit (config a)) + cleanup_batch_size (config a)))
                 = filter (\<lambda>r. r \<notin> set victims) (stm_buffer (db a))"
      using filter_ids[OF ids sub] by (simp add: delete_oldest_def o2 t2 vic)
    have len: "cleanup_batch_size (config a) \<le> stm_limit (config a) \<longrightarrow>
                 length victims = (count - stm_limit (config a)) + cleanup_batch_size (config a)"
      using gt lv by auto
    let ?a' = "a\<lparr>db := delete_oldest d2 user_id ?n,
                  cleanup_operations := cleanup_operations a + 1\<rparr>"
    have tab': "stm_buffer (db ?a') = filter (\<lambda>r. r \<notin> set victims) (stm_buffer (db a))"
      using tab by simp
    show "\<exists>a'. cleanup_old_messages a data =
                     (Returned (CleanupOk (count - stm_limit (config a)) (stm_limit (config a))), a') \<and>
                   stm_buffer (db a') = filter (\<lambda>r. r \<notin> set victims) (stm_buffer (db a)) \<and>
                   length (stm_buffer (db a')) = length (stm_buffer (db a)) - length victims \<and>
                   (\<forall>v \<in> set victims. v \<in> set (stm_buffer (db a)) \<and> row_user_id v = user_id) \<and>
                   distinct victims \<and>
                   length victims
                     = min ((count - stm_limit (config a)) + cleanup_batch_size (config a)) count \<and>
                   (\<forall>v \<in> set victims. \<forall>r \<in> set (stm_buffer (db a')).
                      row_user_id r = user_id \<longrightarrow> created_at v \<le> created_at r) \<and>
                   filter (\<lambda>r. row_user_id r \<noteq> user_id) (stm_buffer (db a'))
                     = filter (\<lambda>r. row_user_id r \<noteq> user_id) (stm_buffer (db a)) \<and>
                   (cleanup_batch_size (config a) \<le> stm_limit (config a) \<longrightarrow>
                      length victims = (count - stm_limit (config a)) + cleanup_batch_size (config a))"
    proof (rule exI[of _ ?a'], intro conjI)
      show "cleanup_old_messages a data =
              (Returned (CleanupOk (count - stm_limit (config a)) (stm_limit (config a))), ?a')"
        by (rule run)
      show "stm_buffer (db ?a') = filter (\<lambda>r. r \<notin> set victims) (stm_buffer (db a))"
        by (rule tab')
      show "length (stm_buffer (db ?a')) = length (stm_buffer (db a)) - length victims"
        unfolding tab' by (rule length_filter_out[OF dt dv sub])
      show "\<forall>v \<in> set victims. v \<in> set (stm_buffer (db a)) \<and> row_user_id v = user_id"
        by (rule own)
      show "distinct victims" by (rule dv)
      show "length victims = min ?n count" by (rule lv)
      show "\<forall>v \<in> set victims. \<forall>r \<in> set (stm_buffer (db ?a')).
              row_user_id r = user_id \<longrightarrow> created_at v \<le> created_at r"
        unfolding tab' by (rule old)
      show "filter (\<lambda>r. row_user_id r \<noteq> user_id) (stm_buffer (db ?a'))
              = filter (\<lambda>r. row_user_id r \<noteq> user_id) (stm_buffer (db a))"
        unfolding tab' by (rule others)
      show "cleanup_batch_size (config a) \<le> stm_limit (config a) \<longrightarrow>
              length victims = ?n"
        by (rule len)
    qed
  next
    assume le: "count \<le> stm_limit (config a)"
    show "\<exists>a'. cleanup_old_messages a data = (Returned (CleanupOk 0 count), a') \<and>
                   stm_buffer (db a') = stm_buffer (db a)"
      using uid s1 c1 le t1 by (simp add: cleanup_old_messages_def Let_def)
  qed
qed

text \<open>
  The theorem at the example actor (limit 2, batch 1): user 7 has three turns, so the
  two oldest go (one in excess plus a batch of one), those created at 1 and 2, while
  \<open>deleted_count\<close> reports 1 and \<open>remaining_count\<close> reports the limit; the turn
  created at 4 and the turn of user 8 stay. User 8 has one turn and keeps it.
\<close>

lemma example_db_fields:
  "db example_actor = example_db" "config example_actor = small_config"
  "stm_buffer example_db = example_rows" "faults example_db = []"
  by (simp_all add: example_actor_def MemoryActor_def example_db_def)

lemma example_counts: "count_rows example_db 7 = 3" "count_rows example_db 8 = 1"
  using length_oldest_first[of example_db 7] length_oldest_first[of example_db 8]
  by (simp_all add: example_oldest_7 example_oldest_8)

theorem cleanup_deletes_oldest_excess_plus_batch_witness:
  "(\<exists>a'. cleanup_old_messages example_actor (data_for 7) = (Returned (CleanupOk 1 2), a') \<and>
         stm_buffer (db a') = [example_rows ! 2, example_rows ! 3] \<and>
         map created_at (stm_buffer (db a')) = [3, 4] \<and>
         map created_at (take ((3 - 2) + 1) (oldest_first example_db 7)) = [1, 2] \<and>
         length (take ((3 - 2) + 1) (oldest_first example_db 7)) = (3 - 2) + 1) \<and>
   (\<exists>a'. cleanup_old_messages example_actor (data_for 8) = (Returned (CleanupOk 0 1), a') \<and>
         stm_buffer (db a') = example_rows)"
proof -
  have ok: "storage_ok 2 (db example_actor)"
    by (simp add: storage_ok_def example_db_fields)
  have ids: "distinct (map row_id (stm_buffer (db example_actor)))"
    by (simp add: example_db_fields example_rows_def)
  have cfg: "stm_limit small_config = 2" "cleanup_batch_size small_config = 1"
    by (simp_all add: small_config_def)
  have u7: "d_user_id (data_for 7) = Some 7" and u8: "d_user_id (data_for 8) = Some 8"
    by (simp_all add: data_for_def)
  have n7: "length (filter (\<lambda>r. row_user_id r = 7) (stm_buffer (db example_actor))) = 3"
    and n8: "length (filter (\<lambda>r. row_user_id r = 8) (stm_buffer (db example_actor))) = 1"
    using example_counts by (simp_all add: count_rows_def example_db_fields)
  have flt: "filter (\<lambda>r. r \<notin> set (take (Suc (Suc 0)) (oldest_first example_db 7))) example_rows
               = [example_rows ! 2, example_rows ! 3]"
    by (simp add: example_oldest_7 example_rows_def)
  have stamps: "map created_at [example_rows ! 2, example_rows ! 3] = [3, 4]"
    "map created_at (take ((3 - 2) + 1) (oldest_first example_db 7)) = [1, 2]"
    by (simp_all add: example_oldest_7 example_rows_def)
  from cleanup_deletes_oldest_excess_plus_batch[OF u7 ok ids n7[symmetric] refl]
  have "\<exists>a'. cleanup_old_messages example_actor (data_for 7) = (Returned (CleanupOk 1 2), a') \<and>
         stm_buffer (db a') = [example_rows ! 2, example_rows ! 3] \<and>
         length (take ((3 - 2) + 1) (oldest_first example_db 7)) = (3 - 2) + 1"
    using flt by (auto simp add: cfg example_db_fields example_counts length_oldest_first)
  then obtain a7 where a7:
    "cleanup_old_messages example_actor (data_for 7) = (Returned (CleanupOk 1 2), a7)"
    "stm_buffer (db a7) = [example_rows ! 2, example_rows ! 3]"
    "length (take ((3 - 2) + 1) (oldest_first example_db 7)) = (3 - 2) + 1"
    by blast
  have s7: "map created_at (stm_buffer (db a7)) = [3, 4]" unfolding a7(2) by (rule stamps(1))
  have A: "\<exists>a'. cleanup_old_messages example_actor (data_for 7) = (Returned (CleanupOk 1 2), a') \<and>
         stm_buffer (db a') = [example_rows ! 2, example_rows ! 3] \<and>
         map created_at (stm_buffer (db a')) = [3, 4] \<and>
         map created_at (take ((3 - 2) + 1) (oldest_first example_db 7)) = [1, 2] \<and>
         length (take ((3 - 2) + 1) (oldest_first example_db 7)) = (3 - 2) + 1"
    by (rule exI[of _ a7], intro conjI) (rule a7 s7 stamps(2))+
  from cleanup_deletes_oldest_excess_plus_batch[OF u8 ok ids n8[symmetric] refl]
  have B: "\<exists>a'. cleanup_old_messages example_actor (data_for 8) = (Returned (CleanupOk 0 1), a') \<and>
         stm_buffer (db a') = example_rows"
    by (simp add: cfg example_db_fields example_counts)
  from A B show ?thesis by blast
qed

section \<open>Storing a user turn when the storage keeps failing\<close>

text \<open>
  A database whose next three storage interactions raise, and a store message for user 7.
\<close>

definition outage_db :: database where
  "outage_db = example_db\<lparr>faults := [Some ''down'', Some ''down'', Some ''gone'']\<rparr>"

definition hello_data :: msg_data where
  "hello_data = (data_for 7)\<lparr>d_content := Some [104, 105]\<rparr>"

text \<open>
  When every attempt of the loop raises, the last attempt re-raises its error and the
  attempts before it each slept \<open>retry_delay_seconds\<close>.
\<close>

lemma store_loop_all_fail:
  assumes "faults (db a) = map Some ms @ rest" "length ms = n - k" "k < n"
    "n = retry_attempts (config a)"
  shows "store_loop a u c e m [k ..< n] =
           (Raised (StorageError (last ms)),
            a\<lparr>db := (db a)\<lparr>faults := rest\<rparr>,
              sleeps := sleeps a @ replicate (length ms - 1) (retry_delay_seconds (config a))\<rparr>)"
  using assms
proof (induction ms arbitrary: a k)
  case Nil
  then show ?case by simp
next
  case (Cons x xs)
  have up: "[k ..< n] = k # [Suc k ..< n]" using Cons.prems(3) by (simp add: upt_conv_Cons)
  have sc: "storage_call (db a) = (Some x, (db a)\<lparr>faults := map Some xs @ rest\<rparr>)"
    using Cons.prems(1) by (simp add: storage_call_def)
  show ?case
  proof (cases xs)
    case Nil
    then have "Suc k = n" using Cons.prems(2,3) by simp
    then have "\<not> int k < int (retry_attempts (config a)) - 1" using Cons.prems(4) by simp
    then show ?thesis using up sc Nil by simp
  next
    case (Cons y ys)
    then have lt: "Suc k < n" using Cons.prems(2) by simp
    then have c: "int k < int (retry_attempts (config a)) - 1" using Cons.prems(4) by simp
    let ?a = "a\<lparr>db := (db a)\<lparr>faults := map Some xs @ rest\<rparr>,
                 sleeps := sleeps a @ [retry_delay_seconds (config a)]\<rparr>"
    have ih: "store_loop ?a u c e m [Suc k ..< n] =
           (Raised (StorageError (last xs)),
            ?a\<lparr>db := (db ?a)\<lparr>faults := rest\<rparr>,
              sleeps := sleeps ?a @ replicate (length xs - 1) (retry_delay_seconds (config ?a))\<rparr>)"
      by (rule Cons.IH) (use Cons.prems lt in simp_all)
    show ?thesis
      using up sc c ih Cons by (simp add: replicate_append_same)
  qed
qed

text \<open>
  Claim C1, as the source has it. When the insert raises on each of the
  \<open>retry_attempts\<close> attempts (at least one), \<open>_store_user_message\<close> does not raise:
  the outer \<open>except Exception\<close> catches the final error and the operation returns the
  dictionary \<open>{"success": False, "error": str(e)}\<close> of the last error, after
  \<open>retry_attempts\<close> attempts and \<open>retry_attempts - 1\<close> sleeps of
  \<open>retry_delay_seconds\<close>, leaving the table as it was.
\<close>

theorem store_user_message_exhausted_returns_failure:
  assumes "d_user_id data = Some user_id" "d_content data = Some content"
    and "0 < retry_attempts (config a)"
    and "faults (db a) = map Some ms @ rest"
    and "length ms = retry_attempts (config a)"
  shows "store_user_message a data =
           (Returned (Failure (last ms)),
            a\<lparr>db := (db a)\<lparr>faults := rest\<rparr>,
              sleeps := sleeps a @
                replicate (retry_attempts (config a) - 1) (retry_delay_seconds (config a))\<rparr>)"
  using assms store_loop_all_fail[of a ms rest "retry_attempts (config a)" 0 user_id content
      "d_emotion data" "d_mode data"]
  by (simp add: store_user_message_def)

theorem store_user_message_exhausted_returns_failure_witness:
  "store_user_message (MemoryActor outage_db) hello_data =
     (Returned (Failure ''gone''),
      (MemoryActor outage_db)\<lparr>db := outage_db\<lparr>faults := []\<rparr>, sleeps := [1, 1]\<rparr>)"
proof -
  have h1: "d_user_id hello_data = Some 7" and h2: "d_content hello_data = Some [104, 105]"
    by (simp_all add: hello_data_def data_for_def)
  have h3: "0 < retry_attempts (config (MemoryActor outage_db))"
    by (simp add: MemoryActor_def MEMORY_CONFIG_def)
  have h4: "faults (db (MemoryActor outage_db)) = map Some [''down'', ''down'', ''gone''] @ []"
    by (simp add: MemoryActor_def outage_db_def)
  have h5: "length [''down'', ''down'', ''gone''] = retry_attempts (config (MemoryActor outage_db))"
    by (simp add: MemoryActor_def MEMORY_CONFIG_def)
  show ?thesis
    using store_user_message_exhausted_returns_failure[OF h1 h2 h3 h4 h5]
    by (simp add: MemoryActor_def MEMORY_CONFIG_def numeral_3_eq_3)
qed

text \<open>
  Claim C1 as stated fails: with \<open>MEMORY_CONFIG\<close> (three attempts) and three failing
  inserts, the caller receives a dictionary, not the final storage error.
\<close>

theorem store_user_message_exhausted_counterexample:
  "fst (store_user_message (MemoryActor outage_db) hello_data) = Returned (Failure ''gone'') \<and>
   fst (store_user_message (MemoryActor outage_db) hello_data) \<noteq> Raised (StorageError ''gone'')"
  by (simp add: store_user_message_def hello_data_def data_for_def empty_data_def MemoryActor_def
        MEMORY_CONFIG_def outage_db_def storage_call_def upt_rec)

section \<open>\<open>handle_message\<close> is total\<close>

text \<open>An operation returns a dictionary or raises; it never blocks and never returns \<open>None\<close>.\<close>

definition dict_or_raise :: "result outcome \<times> memory_actor \<Rightarrow> bool" where
  "dict_or_raise p = (case fst p of Returned r \<Rightarrow> is_dict r | Raised e \<Rightarrow> True | Blocked \<Rightarrow> False)"

lemma store_loop_dict_or_raise:
  "k < n \<Longrightarrow> n = retry_attempts (config a) \<Longrightarrow> dict_or_raise (store_loop a u c e m [k ..< n])"
proof (induction "n - k" arbitrary: a k)
  case 0
  then show ?case by simp
next
  case (Suc j)
  have up: "[k ..< n] = k # [Suc k ..< n]" using Suc.prems(1) by (simp add: upt_conv_Cons)
  show ?case
  proof (cases "storage_call (db a)")
    case (Pair f d')
    show ?thesis
    proof (cases f)
      case None
      then show ?thesis using up Pair
        by (simp add: dict_or_raise_def Let_def split: prod.splits)
    next
      case (Some x)
      show ?thesis
      proof (cases "int k < int (retry_attempts (config a)) - 1")
        case True
        then have lt: "Suc k < n" using Suc.prems(2) by simp
        have "dict_or_raise (store_loop (a\<lparr>db := d', sleeps := sleeps a @ [retry_delay_seconds (config a)]\<rparr>)
                 u c e m [Suc k ..< n])"
          by (rule Suc.hyps(1)) (use Suc.hyps(2) Suc.prems lt in simp_all)
        then show ?thesis using up Pair Some True by simp
      next
        case False
        then show ?thesis using up Pair Some by (simp add: dict_or_raise_def)
      qed
    qed
  qed
qed

lemma store_user_message_dict_or_raise:
  assumes "0 < retry_attempts (config a)"
  shows "dict_or_raise (store_user_message a data)"
proof (cases "d_user_id data")
  case None
  then show ?thesis by (simp add: store_user_message_def dict_or_raise_def)
next
  case (Some u)
  show ?thesis
  proof (cases "d_content data")
    case None
    then show ?thesis using Some by (simp add: store_user_message_def dict_or_raise_def)
  next
    case (Some c)
    have "dict_or_raise (store_loop a u c (d_emotion data) (d_mode data) [0 ..< retry_attempts (config a)])"
      using assms by (intro store_loop_dict_or_raise) simp_all
    then show ?thesis using \<open>d_user_id data = Some u\<close> Some
      by (cases "store_loop a u c (d_emotion data) (d_mode data) [0 ..< retry_attempts (config a)]")
         (auto simp: store_user_message_def dict_or_raise_def split: outcome.splits)
  qed
qed

lemma store_bot_response_dict_or_raise: "dict_or_raise (store_bot_response a data)"
  by (auto simp: store_bot_response_def dict_or_raise_def Let_def split: option.splits prod.splits)

lemma get_conversation_context_dict_or_raise: "dict_or_raise (get_conversation_context a data)"
  by (auto simp: get_conversation_context_def dict_or_raise_def Let_def split: option.splits prod.splits)

lemma cleanup_old_messages_dict_or_raise: "dict_or_raise (cleanup_old_messages a data)"
  by (auto simp: cleanup_old_messages_def dict_or_raise_def Let_def split: option.splits prod.splits)

lemma get_user_stats_dict_or_raise: "dict_or_raise (get_user_stats a data)"
  by (auto simp: get_user_stats_def dict_or_raise_def Let_def split: option.splits prod.splits)

lemma dispatch_dict_or_raise:
  "0 < retry_attempts (config a) \<Longrightarrow> dict_or_raise (dispatch a t data)"
  using store_user_message_dict_or_raise[of a data] store_bot_response_dict_or_raise[of a data]
    get_conversation_context_dict_or_raise[of a data] cleanup_old_messages_dict_or_raise[of a data]
    get_user_stats_dict_or_raise[of a data]
  by (simp add: dispatch_def) (simp add: dict_or_raise_def)

lemma handle_message_returns_dict:
  assumes "0 < retry_attempts (config a)"
  shows "\<exists>r a'. handle_message a message = (Returned r, a') \<and> is_dict r"
proof (cases "type_and_data message")
  case (Inl e)
  then show ?thesis by (simp add: handle_message_def)
next
  case (Inr td)
  obtain t data where td: "td = (t, data)" by (cases td)
  let ?a1 = "a\<lparr>message_count := message_count a + 1\<rparr>"
  have "dict_or_raise (dispatch ?a1 t data)"
    by (rule dispatch_dict_or_raise) (use assms in simp)
  then show ?thesis using Inr td
    by (cases "dispatch ?a1 t data")
       (auto simp: handle_message_def dict_or_raise_def Let_def split: outcome.splits)
qed

text \<open>The message types of \<open>MEMORY_MESSAGE_TYPES\<close>, which are those \<open>handle_message\<close> dispatches on.\<close>

definition known_types :: "string list" where
  "known_types = [''store_user_message'', ''store_bot_response'', ''get_conversation_context'',
                  ''cleanup_old_messages'', ''get_user_stats'']"

lemma handle_message_unknown_type:
  assumes "type_and_data message = Inr (t, data)" "t \<notin> Some ` set known_types"
  shows "fst (handle_message a message) = Returned (ErrorOnly (unknown_type_text t))"
  using assms by (auto simp: handle_message_def dispatch_def known_types_def)

lemma handle_message_not_a_message:
  "type_and_data message = Inl e \<Longrightarrow>
   fst (handle_message a message) = Returned (ErrorOnly (str_of_exn e))"
  by (simp add: handle_message_def)

lemma handle_message_exhausted:
  assumes "message = ActorMessage ''store_user_message'' data"
    "d_user_id data = Some u" "d_content data = Some c"
    "faults (db a) = map Some ms @ rest" "length ms = retry_attempts (config a)"
    "0 < retry_attempts (config a)"
  shows "fst (handle_message a message) = Returned (Failure (last ms))"
proof -
  let ?a1 = "a\<lparr>message_count := message_count a + 1\<rparr>"
  have "store_loop ?a1 u c (d_emotion data) (d_mode data) [0 ..< retry_attempts (config a)] =
           (Raised (StorageError (last ms)),
            ?a1\<lparr>db := (db ?a1)\<lparr>faults := rest\<rparr>,
              sleeps := sleeps ?a1 @ replicate (length ms - 1) (retry_delay_seconds (config ?a1))\<rparr>)"
    by (rule store_loop_all_fail[where rest = rest]) (use assms in simp_all)
  then show ?thesis using assms(1-3)
    by (simp add: handle_message_def type_and_data_def dispatch_def store_user_message_def)
qed

lemma handle_message_storage_failure:
  assumes "message = ActorMessage t data"
    "t \<in> {''store_bot_response'', ''get_conversation_context'', ''cleanup_old_messages'', ''get_user_stats''}"
    "d_user_id data = Some u" "d_content data = Some c"
    "fst (storage_call (db a)) = Some m"
  shows "fst (handle_message a message) =
           Returned (if t = ''get_conversation_context'' then ContextFailure m else Failure m)"
proof -
  obtain d' where "storage_call (db a) = (Some m, d')"
    using assms(5) by (cases "storage_call (db a)") simp
  then show ?thesis using assms(1-4)
    by (auto simp: handle_message_def type_and_data_def dispatch_def store_bot_response_def
        get_conversation_context_def cleanup_old_messages_def get_user_stats_def Let_def)
qed

text \<open>
  Claim C10. With at least one configured attempt (\<open>MEMORY_CONFIG\<close> has three),
  \<open>handle_message\<close> returns a dictionary for every message and every behaviour of the
  storage, and never raises: an unrecognised type gives \<open>{"error": "Unknown message
  type: ..."}\<close>, an object that is no message gives \<open>{"error": ...}\<close>, a store-user-turn
  whose attempts all fail gives \<open>{"success": False, "error": str(e)}\<close> of the last
  error, and a failing storage call in each other operation gives a dictionary with
  \<open>"success": False\<close> and an \<open>"error"\<close> key.
\<close>

theorem handle_message_total:
  assumes "0 < retry_attempts (config a)"
  shows "(\<exists>r a'. handle_message a message = (Returned r, a') \<and> is_dict r) \<and>
         (\<forall>t data. type_and_data message = Inr (t, data) \<and> t \<notin> Some ` set known_types \<longrightarrow>
            fst (handle_message a message) = Returned (ErrorOnly (unknown_type_text t))) \<and>
         (type_and_data message = Inl (AttributeError ''object has no attribute get'') \<longrightarrow>
            (\<exists>m. fst (handle_message a message) = Returned (ErrorOnly m))) \<and>
         (\<forall>data u c ms rest.
            message = ActorMessage ''store_user_message'' data \<and>
            d_user_id data = Some u \<and> d_content data = Some c \<and>
            faults (db a) = map Some ms @ rest \<and> length ms = retry_attempts (config a) \<longrightarrow>
            fst (handle_message a message) = Returned (Failure (last ms))) \<and>
         (\<forall>t data u c m.
            message = ActorMessage t data \<and>
            t \<in> {''store_bot_response'', ''get_conversation_context'', ''cleanup_old_messages'',
                  ''get_user_stats''} \<and>
            d_user_id data = Some u \<and> d_content data = Some c \<and>
            fst (storage_call (db a)) = Some m \<longrightarrow>
            (\<exists>r. fst (handle_message a message) = Returned r \<and> success_false r \<and> has_error_key r))"
proof (intro conjI allI impI)
  show "\<exists>r a'. handle_message a message = (Returned r, a') \<and> is_dict r"
    using assms by (rule handle_message_returns_dict)
next
  fix t data
  assume "type_and_data message = Inr (t, data) \<and> t \<notin> Some ` set known_types"
  then have a: "type_and_data message = Inr (t, data)" and b: "t \<notin> Some ` set known_types"
    by simp_all
  show "fst (handle_message a message) = Returned (ErrorOnly (unknown_type_text t))"
    by (rule handle_message_unknown_type[OF a b])
next
  assume "type_and_data message = Inl (AttributeError ''object has no attribute get'')"
  then have "fst (handle_message a message)
               = Returned (ErrorOnly (str_of_exn (AttributeError ''object has no attribute get'')))"
    by (rule handle_message_not_a_message)
  then show "\<exists>m. fst (handle_message a message) = Returned (ErrorOnly m)" ..
next
  fix data u c ms rest
  assume "message = ActorMessage ''store_user_message'' data \<and>
            d_user_id data = Some u \<and> d_content data = Some c \<and>
            faults (db a) = map Some ms @ rest \<and> length ms = retry_attempts (config a)"
  then have "message = ActorMessage ''store_user_message'' data"
    "d_user_id data = Some u" "d_content data = Some c"
    "faults (db a) = map Some ms @ rest" "length ms = retry_attempts (config a)"
    by simp_all
  then show "fst (handle_message a message) = Returned (Failure (last ms))"
    using assms by (rule handle_message_exhausted)
next
  fix t data u c m
  assume h: "message = ActorMessage t data \<and>
            t \<in> {''store_bot_response'', ''get_conversation_context'', ''cleanup_old_messages'',
                  ''get_user_stats''} \<and>
            d_user_id data = Some u \<and> d_content data = Some c \<and>
            fst (storage_call (db a)) = Some m"
  then have "message = ActorMessage t data"
    "t \<in> {''store_bot_response'', ''get_conversation_context'', ''cleanup_old_messages'', ''get_user_stats''}"
    "d_user_id data = Some u" "d_content data = Some c"
    "fst (storage_call (db a)) = Some m"
    by simp_all
  then have "fst (handle_message a message) =
           Returned (if t = ''get_conversation_context'' then ContextFailure m else Failure m)"
    by (rule handle_message_storage_failure)
  then show "\<exists>r. fst (handle_message a message) = Returned r \<and> success_false r \<and> has_error_key r"
    by simp
qed

theorem handle_message_total_witness:
  "(\<exists>r a'. handle_message (MemoryActor outage_db) (ActorMessage ''store_user_message'' hello_data)
              = (Returned r, a') \<and> is_dict r) \<and>
   fst (handle_message (MemoryActor outage_db) (ActorMessage ''store_user_message'' hello_data))
     = Returned (Failure ''gone'') \<and>
   fst (handle_message (MemoryActor outage_db) (DictMessage (Some ''dance'') None))
     = Returned (ErrorOnly ''Unknown message type: dance'') \<and>
   (\<exists>m. fst (handle_message (MemoryActor outage_db) OtherObject) = Returned (ErrorOnly m)) \<and>
   (\<exists>r. fst (handle_message (MemoryActor outage_db) (ActorMessage ''get_user_stats'' hello_data))
           = Returned r \<and> success_false r \<and> has_error_key r)"
proof -
  let ?A = "MemoryActor outage_db"
  have pos: "0 < retry_attempts (config ?A)" by (simp add: MemoryActor_def MEMORY_CONFIG_def)
  have h1: "d_user_id hello_data = Some 7" and h2: "d_content hello_data = Some [104, 105]"
    by (simp_all add: hello_data_def data_for_def)
  have h4: "faults (db ?A) = map Some [''down'', ''down'', ''gone''] @ []"
    by (simp add: MemoryActor_def outage_db_def)
  have h5: "length [''down'', ''down'', ''gone''] = retry_attempts (config ?A)"
    by (simp add: MemoryActor_def MEMORY_CONFIG_def)
  have sc: "fst (storage_call (db ?A)) = Some ''down''"
    by (simp add: storage_call_def MemoryActor_def outage_db_def)
  note T1 = handle_message_total[OF pos, of "ActorMessage ''store_user_message'' hello_data"]
  note T2 = handle_message_total[OF pos, of "DictMessage (Some ''dance'') None"]
  note T3 = handle_message_total[OF pos, of OtherObject]
  note T4 = handle_message_total[OF pos, of "ActorMessage ''get_user_stats'' hello_data"]
  have c1: "\<exists>r a'. handle_message ?A (ActorMessage ''store_user_message'' hello_data)
              = (Returned r, a') \<and> is_dict r"
    by (rule T1[THEN conjunct1])
  have c2: "fst (handle_message ?A (ActorMessage ''store_user_message'' hello_data))
              = Returned (Failure ''gone'')"
    using T1[THEN conjunct2, THEN conjunct2, THEN conjunct2, THEN conjunct1, rule_format,
        of hello_data 7 "[104, 105]" "[''down'', ''down'', ''gone'']" "[]"] h1 h2 h4 h5
    by simp
  have c3: "fst (handle_message ?A (DictMessage (Some ''dance'') None))
              = Returned (ErrorOnly ''Unknown message type: dance'')"
    using T2[THEN conjunct2, THEN conjunct1, rule_format, of "Some ''dance''" empty_data]
    by (simp add: type_and_data_def known_types_def unknown_type_text_def)
  have c4: "\<exists>m. fst (handle_message ?A OtherObject) = Returned (ErrorOnly m)"
    using T3[THEN conjunct2, THEN conjunct2, THEN conjunct1] by (simp add: type_and_data_def)
  have c5: "\<exists>r. fst (handle_message ?A (ActorMessage ''get_user_stats'' hello_data))
           = Returned r \<and> success_false r \<and> has_error_key r"
    using T4[THEN conjunct2, THEN conjunct2, THEN conjunct2, THEN conjunct2, rule_format,
        of "''get_user_stats''" hello_data 7 "[104, 105]" "''down''"] h1 h2 sc
    by simp
  from c1 c2 c3 c4 c5 show ?thesis by (intro conjI)
qed

section \<open>Events\<close>

text \<open>
  \<open>events/base_event.py\<close> and \<open>events/conversation_events.py\<close>. An event has the
  fields of \<open>BaseEvent\<close> and, in \<open>ev_payload\<close>, the fields its subclass adds. The type
  \<open>'d\<close> is that of the \<open>data\<close> and \<open>metadata\<close> dictionaries. The \<open>event_id\<close>, a
  random UUID that no modelled code reads and that the store does not persist, is left
  out.
\<close>

datatype payload =
    NoPayload
  | UserMessagePayload unicode "unicode option" "unicode option" string
  | BotResponsePayload unicode nat "string option"
  | SystemPayload string string "string option"
  | CoordinationPayload string string string "nat option" bool "string option"

record 'd event =
  ev_type :: string
  ev_timestamp :: nat
  ev_user_id :: "int option"
  ev_data :: 'd
  ev_stream_id :: "string option"
  ev_version :: int
  ev_metadata :: 'd
  ev_payload :: payload

text \<open>
  \<open>config/events.py\<close>: the entries of \<open>EVENT_CONFIG\<close> that the store and the size
  check read.
\<close>

record event_config =
  max_event_size_bytes :: nat
  event_batch_size :: nat
  event_retention_days :: nat
  event_compression_enabled :: bool
  event_validation_enabled :: bool
  event_metadata_max_size :: nat

definition EVENT_CONFIG :: event_config where
  "EVENT_CONFIG =
     \<lparr>max_event_size_bytes = 64000, event_batch_size = 100, event_retention_days = 365,
      event_compression_enabled = True, event_validation_enabled = True,
      event_metadata_max_size = 1024\<rparr>"

text \<open>
  The library functions the store relies on: \<open>json.dumps\<close> (\<open>None\<close> when it raises on
  a value that has no JSON form), \<open>json.loads\<close>, and \<open>sys.getsizeof(self.json())\<close>.
\<close>

record 'd json_lib =
  json_dumps :: "'d \<Rightarrow> string option"
  json_loads :: "string \<Rightarrow> 'd"
  getsizeof_json :: "'d event \<Rightarrow> nat"

text \<open>\<open>BaseEvent.validate_event_size\<close>\<close>

definition validate_event_size :: "event_config \<Rightarrow> 'd json_lib \<Rightarrow> 'd event \<Rightarrow> exn + unit" where
  "validate_event_size cfg lib ev =
     (if \<not> event_validation_enabled cfg then Inr ()
      else
        (let max_size = max_event_size_bytes cfg;
             event_size = getsizeof_json lib ev
         in if event_size > max_size
            then (if event_compression_enabled cfg then Inr ()
                  else Inl (ValueError ''Event size exceeds limit''))
            else Inr ()))"

section \<open>EventStore\<close>

text \<open>
  Table \<open>events\<close>. The INSERT of \<open>_flush_buffer\<close> supplies \<open>event_type\<close>,
  \<open>user_id\<close>, \<open>data\<close>, \<open>stream_id\<close>, \<open>version\<close> and \<open>metadata\<close>; the
  \<open>timestamp\<close> column, which the queries filter and order by, is not supplied and gets
  the value the table gives it (the table's declaration is not part of the sources: the
  value is the field \<open>table_now\<close> of the store's state).
\<close>

record event_row =
  r_event_type :: string
  r_user_id :: int
  r_data :: string
  r_stream_id :: string
  r_version :: int
  r_metadata :: string
  r_timestamp :: nat

text \<open>What the store does to its lock and its storage, in order.\<close>

datatype io = Acquire | Release | AwaitInsert nat

text \<open>
  The background task that \<open>initialize\<close> creates and keeps in \<open>_flush_task\<close>. It is
  outside the lock (asleep between two rounds, or waiting to take the lock), or suspended
  inside its \<open>async with self._buffer_lock\<close> block, or cancelled.
\<close>

datatype task_state = Outside_lock | Inside_lock | Cancelled

text \<open>
  The store: its buffer, its \<open>asyncio.Lock\<close> (\<open>True\<close> when locked), its batch size,
  the storage it writes to (the table, the script of the upcoming storage interactions as
  for the memory actor, and the timestamp default), and \<open>_flush_task\<close> (\<open>None\<close> until
  \<open>initialize\<close> is called).
\<close>

record 'd event_store =
  event_buffer :: "'d event list"
  buffer_lock :: bool
  batch_size :: nat
  es_config :: event_config
  es_lib :: "'d json_lib"
  events_table :: "event_row list"
  insert_faults :: "string option list"
  table_now :: nat
  io_trace :: "io list"
  flush_task :: "task_state option"

definition EventStore :: "'d json_lib \<Rightarrow> 'd event_store" where
  "EventStore lib =
     \<lparr>event_buffer = [], buffer_lock = False, batch_size = event_batch_size EVENT_CONFIG,
      es_config = EVENT_CONFIG, es_lib = lib, events_table = [], insert_faults = [],
      table_now = 0, io_trace = [], flush_task = None\<rparr>"

text \<open>\<open>initialize\<close>: \<open>self._flush_task = asyncio.create_task(self._periodic_flush())\<close>\<close>

definition initialize :: "'d event_store \<Rightarrow> 'd event_store" where
  "initialize s = s\<lparr>flush_task := Some Outside_lock\<rparr>"

text \<open>
  \<open>async with self._buffer_lock\<close>. An \<open>asyncio.Lock\<close> has no owner and is not
  reentrant: acquiring it while it is locked suspends the caller until a release. Within
  one operation the only holder is the operation itself, so the release never comes
  (\<open>None\<close>).
\<close>

definition acquire :: "'d event_store \<Rightarrow> 'd event_store option" where
  "acquire s =
     (if buffer_lock s then None
      else Some (s\<lparr>buffer_lock := True, io_trace := io_trace s @ [Acquire]\<rparr>))"

definition release :: "'d event_store \<Rightarrow> 'd event_store" where
  "release s = s\<lparr>buffer_lock := False, io_trace := io_trace s @ [Release]\<rparr>"

text \<open>
  The tuple built for one event: \<open>user_id or 0\<close>, \<open>stream_id or ''\<close>, and the two
  \<open>json.dumps\<close>, either of which may raise.
\<close>

definition event_tuple :: "'d json_lib \<Rightarrow> nat \<Rightarrow> 'd event \<Rightarrow> event_row option" where
  "event_tuple lib now ev =
     (case json_dumps lib (ev_data ev) of
        None \<Rightarrow> None
      | Some data_text \<Rightarrow>
          (case json_dumps lib (ev_metadata ev) of
             None \<Rightarrow> None
           | Some metadata_text \<Rightarrow>
               Some \<lparr>r_event_type = ev_type ev,
                     r_user_id = (case ev_user_id ev of None \<Rightarrow> 0 | Some u \<Rightarrow> u),
                     r_data = data_text,
                     r_stream_id = (case ev_stream_id ev of None \<Rightarrow> [] | Some sid \<Rightarrow> sid),
                     r_version = ev_version ev,
                     r_metadata = metadata_text,
                     r_timestamp = now\<rparr>))"

fun event_tuples :: "'d json_lib \<Rightarrow> nat \<Rightarrow> 'd event list \<Rightarrow> event_row list option" where
  "event_tuples lib now [] = Some []"
| "event_tuples lib now (ev # evs) =
     (case event_tuple lib now ev of
        None \<Rightarrow> None
      | Some row \<Rightarrow>
          (case event_tuples lib now evs of None \<Rightarrow> None | Some rows \<Rightarrow> Some (row # rows)))"

text \<open>\<open>await self.db.execute_many(INSERT ..., event_data)\<close>: one storage interaction.\<close>

definition execute_many :: "'d event_store \<Rightarrow> event_row list \<Rightarrow> string option \<times> 'd event_store" where
  "execute_many s rows =
     (let s' = s\<lparr>io_trace := io_trace s @ [AwaitInsert (length rows)]\<rparr> in
      case insert_faults s' of
        [] \<Rightarrow> (None, s'\<lparr>events_table := events_table s' @ rows\<rparr>)
      | None # fs \<Rightarrow> (None, s'\<lparr>events_table := events_table s' @ rows, insert_faults := fs\<rparr>)
      | Some m # fs \<Rightarrow> (Some m, s'\<lparr>insert_faults := fs\<rparr>))"

text \<open>
  The \<open>except\<close> branch of \<open>_flush_buffer\<close>: take the lock, put the batch back in front
  of the buffer, release the lock.
\<close>

definition rebuffer :: "'d event_store \<Rightarrow> 'd event list \<Rightarrow> unit outcome \<times> 'd event_store" where
  "rebuffer s events_to_save =
     (case acquire s of
        None \<Rightarrow> (Blocked, s)
      | Some s' \<Rightarrow> (Returned (), release (s'\<lparr>event_buffer := events_to_save @ event_buffer s'\<rparr>)))"

text \<open>\<open>_flush_buffer\<close>\<close>

definition flush_buffer :: "'d event_store \<Rightarrow> unit outcome \<times> 'd event_store" where
  "flush_buffer s =
     (if event_buffer s = [] then (Returned (), s)
      else
        (let events_to_save = event_buffer s;
             s1 = s\<lparr>event_buffer := []\<rparr>
         in case event_tuples (es_lib s1) (table_now s1) events_to_save of
              None \<Rightarrow> rebuffer s1 events_to_save
            | Some event_data \<Rightarrow>
                (case execute_many s1 event_data of
                   (Some m, s2) \<Rightarrow> rebuffer s2 events_to_save
                 | (None, s2) \<Rightarrow> (Returned (), s2))))"

text \<open>
  \<open>save_event\<close>. Whatever is raised inside is caught and answered with \<open>False\<close>; the
  lock is released when the \<open>async with\<close> block is left.
\<close>

definition save_event :: "'d event \<Rightarrow> 'd event_store \<Rightarrow> bool outcome \<times> 'd event_store" where
  "save_event ev s =
     (case validate_event_size (es_config s) (es_lib s) ev of
        Inl e \<Rightarrow> (Returned False, s)
      | Inr u \<Rightarrow>
          (case acquire s of
             None \<Rightarrow> (Blocked, s)
           | Some s1 \<Rightarrow>
               (let s2 = s1\<lparr>event_buffer := event_buffer s1 @ [ev]\<rparr> in
                if length (event_buffer s2) \<ge> batch_size s2 then
                  (case flush_buffer s2 of
                     (Returned u', s3) \<Rightarrow> (Returned True, release s3)
                   | (Raised e, s3) \<Rightarrow> (Returned False, release s3)
                   | (Blocked, s3) \<Rightarrow> (Blocked, s3))
                else (Returned True, release s2))))"

text \<open>
  One round of \<open>_periodic_flush\<close>, after its sleep; the background task runs it when
  there is one. A round whose flush does not return leaves the task suspended inside its
  \<open>async with\<close> block.
\<close>

definition periodic_flush :: "'d event_store \<Rightarrow> unit outcome \<times> 'd event_store" where
  "periodic_flush s =
     (case acquire s of
        None \<Rightarrow> (Blocked, s)
      | Some s1 \<Rightarrow>
          if event_buffer s1 \<noteq> [] then
            (case flush_buffer s1 of
               (Returned u, s2) \<Rightarrow> (Returned (), release s2)
             | (Raised e, s2) \<Rightarrow> (Raised e, release s2)
             | (Blocked, s2) \<Rightarrow>
                 (Blocked, s2\<lparr>flush_task := map_option (\<lambda>t. Inside_lock) (flush_task s2)\<rparr>))
          else (Returned (), release s1))"

text \<open>
  \<open>if self._flush_task: self._flush_task.cancel()\<close>. The \<open>CancelledError\<close> reaches the
  task where it is suspended. It is no \<open>Exception\<close>, so nothing in the task catches it:
  a task suspended inside its \<open>async with self._buffer_lock\<close> block leaves the block,
  which releases the lock, and whatever the task held in its local variables is gone.
\<close>

definition cancel_flush_task :: "'d event_store \<Rightarrow> 'd event_store" where
  "cancel_flush_task s =
     (case flush_task s of
        None \<Rightarrow> s
      | Some Inside_lock \<Rightarrow> release (s\<lparr>flush_task := Some Cancelled\<rparr>)
      | Some t \<Rightarrow> s\<lparr>flush_task := Some Cancelled\<rparr>)"

text \<open>\<open>shutdown\<close>: the cancellation of the background task, then the final flush, under the lock.\<close>

definition shutdown :: "'d event_store \<Rightarrow> unit outcome \<times> 'd event_store" where
  "shutdown s =
     (case acquire (cancel_flush_task s) of
        None \<Rightarrow> (Blocked, cancel_flush_task s)
      | Some s1 \<Rightarrow>
          (case flush_buffer s1 of
             (Returned u, s2) \<Rightarrow> (Returned (), release s2)
           | (Raised e, s2) \<Rightarrow> (Raised e, release s2)
           | (Blocked, s2) \<Rightarrow> (Blocked, s2)))"




section \<open>Example stores\<close>

text \<open>
  A library for \<open>data\<close> dictionaries that are given as their JSON text, an event of
  user 42, and stores built as the source builds them (batch size 100): one holding 99
  buffered events, the same with a storage that fails, and an empty one whose table
  stamps rows with 9.
\<close>

definition text_lib :: "string json_lib" where
  "text_lib = \<lparr>json_dumps = Some, json_loads = (\<lambda>t. t), getsizeof_json = (\<lambda>ev. 49 + length (ev_data ev))\<rparr>"

definition user_event :: "string event" where
  "user_event =
     \<lparr>ev_type = ''user_message'', ev_timestamp = 5, ev_user_id = Some 42, ev_data = ''{}'',
      ev_stream_id = Some ''user_42'', ev_version = 1, ev_metadata = ''{}'',
      ev_payload = UserMessagePayload [104, 105] None None ''telegram''\<rparr>"

definition nearly_full_store :: "string event_store" where
  "nearly_full_store = (EventStore text_lib)\<lparr>event_buffer := replicate 99 user_event\<rparr>"

definition outage_store :: "string event_store" where
  "outage_store = nearly_full_store\<lparr>insert_faults := [Some ''down'']\<rparr>"


lemma user_event_tuple:
  "event_tuple text_lib now user_event =
     Some \<lparr>r_event_type = ''user_message'', r_user_id = 42, r_data = ''{}'',
           r_stream_id = ''user_42'', r_version = 1, r_metadata = ''{}'', r_timestamp = now\<rparr>"
  by (simp add: event_tuple_def text_lib_def user_event_def)

lemma user_event_valid:
  "validate_event_size EVENT_CONFIG text_lib user_event = Inr ()"
  by (simp add: validate_event_size_def EVENT_CONFIG_def)

lemma nearly_full_fields:
  "\<not> buffer_lock nearly_full_store" "event_buffer nearly_full_store = replicate 99 user_event"
  "insert_faults nearly_full_store = []" "batch_size nearly_full_store = 100"
  "es_config nearly_full_store = EVENT_CONFIG" "es_lib nearly_full_store = text_lib"
  "events_table nearly_full_store = []" "io_trace nearly_full_store = []"
  "table_now nearly_full_store = 0"
  by (simp_all add: nearly_full_store_def EventStore_def EVENT_CONFIG_def)

lemma outage_store_fields:
  "\<not> buffer_lock outage_store" "event_buffer outage_store = replicate 99 user_event"
  "insert_faults outage_store = [Some ''down'']" "batch_size outage_store = 100"
  "es_config outage_store = EVENT_CONFIG" "es_lib outage_store = text_lib"
  "events_table outage_store = []" "io_trace outage_store = []"
  by (simp_all add: outage_store_def nearly_full_store_def EventStore_def EVENT_CONFIG_def)


section \<open>A flush that fails while the lock is held\<close>

text \<open>
  \<open>save_event\<close>, \<open>_periodic_flush\<close> and \<open>shutdown\<close> all call \<open>_flush_buffer\<close>
  inside \<open>async with self._buffer_lock\<close>. When the insert (or the serialisation before
  it) fails there, the \<open>except\<close> branch waits for the lock its own caller holds.
\<close>

lemma rebuffer_locked: "buffer_lock s \<Longrightarrow> rebuffer s evs = (Blocked, s)"
  by (simp add: rebuffer_def acquire_def)

lemma execute_many_lock: "buffer_lock (snd (execute_many s rows)) = buffer_lock s"
  by (simp add: execute_many_def Let_def split: list.splits option.splits)

lemma execute_many_buffer: "event_buffer (snd (execute_many s rows)) = event_buffer s"
  by (simp add: execute_many_def Let_def split: list.splits option.splits)

lemma execute_many_fault:
  "insert_faults s = Some m # fs \<Longrightarrow>
   execute_many s rows = (Some m, s\<lparr>io_trace := io_trace s @ [AwaitInsert (length rows)], insert_faults := fs\<rparr>)"
  by (simp add: execute_many_def Let_def)

lemma flush_buffer_locked_fault:
  assumes "buffer_lock s" "event_buffer s \<noteq> []" "insert_faults s = Some m # fs"
  shows "\<exists>s'. flush_buffer s = (Blocked, s') \<and> event_buffer s' = [] \<and> buffer_lock s' \<and>
              events_table s' = events_table s \<and> batch_size s' = batch_size s"
proof (cases "event_tuples (es_lib s) (table_now s) (event_buffer s)")
  case None
  then show ?thesis using assms by (simp add: flush_buffer_def Let_def rebuffer_locked)
next
  case (Some rows)
  then show ?thesis using assms
    by (simp add: flush_buffer_def Let_def execute_many_fault rebuffer_locked)
qed

text \<open>
  Called with the lock free, as the tests call it, a failing flush does put the batch
  back: this is what the \<open>except\<close> branch is written to do.
\<close>

lemma flush_buffer_unlocked_fault_rebuffers:
  assumes "\<not> buffer_lock s" "insert_faults s = Some m # fs"
  shows "\<exists>s'. flush_buffer s = (Returned (), s') \<and> event_buffer s' = event_buffer s \<and>
              events_table s' = events_table s \<and> \<not> buffer_lock s'"
proof (cases "event_buffer s = []")
  case True
  then show ?thesis using assms by (simp add: flush_buffer_def)
next
  case False
  show ?thesis
  proof (cases "event_tuples (es_lib s) (table_now s) (event_buffer s)")
    case None
    then show ?thesis using assms False
      by (simp add: flush_buffer_def Let_def rebuffer_def acquire_def release_def)
  next
    case (Some rows)
    then show ?thesis using assms False
      by (simp add: flush_buffer_def Let_def execute_many_fault rebuffer_def acquire_def release_def)
  qed
qed

text \<open>
  Claim C9, at the input where the code departs from it. With the lock free and an event
  that passes the size check, when the append brings the buffer to the batch size and the
  storage insert fails, \<open>save_event\<close> neither returns \<open>True\<close> nor raises: it stays
  suspended on the lock it holds, with the batch taken out of the buffer and nothing
  written.
\<close>

theorem save_event_blocks_when_flush_fails:
  assumes "\<not> buffer_lock s"
    and "validate_event_size (es_config s) (es_lib s) ev = Inr ()"
    and "batch_size s \<le> length (event_buffer s) + 1"
    and "insert_faults s = Some m # fs"
  shows "\<exists>s'. save_event ev s = (Blocked, s') \<and> event_buffer s' = [] \<and> buffer_lock s' \<and>
              events_table s' = events_table s"
proof -
  let ?s2 = "s\<lparr>buffer_lock := True, io_trace := io_trace s @ [Acquire],
               event_buffer := event_buffer s @ [ev]\<rparr>"
  have "\<exists>s'. flush_buffer ?s2 = (Blocked, s') \<and> event_buffer s' = [] \<and> buffer_lock s' \<and>
              events_table s' = events_table ?s2 \<and> batch_size s' = batch_size ?s2"
    by (rule flush_buffer_locked_fault[where m = m and fs = fs]) (use assms in simp_all)
  then obtain s' where "flush_buffer ?s2 = (Blocked, s')" "event_buffer s' = []" "buffer_lock s'"
    "events_table s' = events_table s" by auto
  then show ?thesis using assms
    by (simp add: save_event_def acquire_def Let_def)
qed

theorem save_event_blocks_when_flush_fails_witness:
  "\<exists>s'. save_event user_event outage_store = (Blocked, s') \<and> event_buffer s' = [] \<and> buffer_lock s' \<and>
              events_table s' = events_table outage_store"
proof -
  have h1: "\<not> buffer_lock outage_store"
    by (simp add: outage_store_def nearly_full_store_def EventStore_def)
  have h2: "validate_event_size (es_config outage_store) (es_lib outage_store) user_event = Inr ()"
    by (simp add: outage_store_def nearly_full_store_def EventStore_def validate_event_size_def
          EVENT_CONFIG_def)
  have h3: "batch_size outage_store \<le> length (event_buffer outage_store) + 1"
    by (simp add: outage_store_def nearly_full_store_def EventStore_def EVENT_CONFIG_def)
  have h4: "insert_faults outage_store = Some ''down'' # []"
    by (simp add: outage_store_def)
  show ?thesis by (rule save_event_blocks_when_flush_fails[OF h1 h2 h3 h4])
qed

lemma flush_buffer_task: "flush_task (snd (flush_buffer s)) = flush_task s"
  by (simp add: flush_buffer_def rebuffer_def acquire_def release_def execute_many_def Let_def
        split: option.splits list.splits prod.splits)

text \<open>
  Claim C3, at the input where the code departs from it. When the insert of a flush
  started by the background task fails, the failed batch is not put back: the task stays
  suspended on the lock it holds, with the buffer empty and the table unchanged, and a
  direct flush finds nothing to persist. \<open>shutdown\<close> then cancels the task, and with it
  the batch, which only a local variable of the task held: the final flush returns with
  the lock released, the buffer empty and the table still unchanged.
\<close>

theorem flush_failure_under_lock_drops_batch:
  assumes "\<not> buffer_lock s" "event_buffer s \<noteq> []" "insert_faults s = Some m # fs"
    and "flush_task s = Some Outside_lock"
  shows "\<exists>s' s''. periodic_flush s = (Blocked, s') \<and> event_buffer s' = [] \<and>
              events_table s' = events_table s \<and> buffer_lock s' \<and>
              flush_task s' = Some Inside_lock \<and>
              flush_buffer s' = (Returned (), s') \<and>
              shutdown s' = (Returned (), s'') \<and> event_buffer s'' = [] \<and>
              events_table s'' = events_table s \<and> \<not> buffer_lock s'' \<and>
              flush_task s'' = Some Cancelled"
proof -
  let ?s1 = "s\<lparr>buffer_lock := True, io_trace := io_trace s @ [Acquire]\<rparr>"
  have "\<exists>s'. flush_buffer ?s1 = (Blocked, s') \<and> event_buffer s' = [] \<and> buffer_lock s' \<and>
              events_table s' = events_table ?s1 \<and> batch_size s' = batch_size ?s1"
    by (rule flush_buffer_locked_fault[where m = m and fs = fs]) (use assms in simp_all)
  then obtain s2 where s2: "flush_buffer ?s1 = (Blocked, s2)" "event_buffer s2 = []" "buffer_lock s2"
    "events_table s2 = events_table s" by auto
  have t2: "flush_task s2 = Some Outside_lock"
    using flush_buffer_task[of ?s1] s2(1) assms(4) by simp
  let ?s' = "s2\<lparr>flush_task := Some Inside_lock\<rparr>"
  let ?s'' = "s2\<lparr>flush_task := Some Cancelled, buffer_lock := False,
                 io_trace := io_trace s2 @ [Release, Acquire, Release]\<rparr>"
  have p: "periodic_flush s = (Blocked, ?s')"
    using assms s2(1) t2 by (simp add: periodic_flush_def acquire_def)
  have f: "flush_buffer ?s' = (Returned (), ?s')"
    using s2(2) by (simp add: flush_buffer_def)
  have d: "shutdown ?s' = (Returned (), ?s'')"
    using s2(2) by (simp add: shutdown_def cancel_flush_task_def acquire_def release_def flush_buffer_def)
  show ?thesis
    by (rule exI[of _ ?s'], rule exI[of _ ?s''], intro conjI)
       (use p f d s2 in simp_all)
qed

text \<open>
  The theorem at the store that holds 99 events and cannot insert, once \<open>initialize\<close>
  has started the background task.
\<close>

theorem flush_failure_under_lock_drops_batch_witness:
  "\<exists>s' s''. periodic_flush (initialize outage_store) = (Blocked, s') \<and> event_buffer s' = [] \<and>
              events_table s' = [] \<and> buffer_lock s' \<and>
              flush_task s' = Some Inside_lock \<and>
              flush_buffer s' = (Returned (), s') \<and>
              shutdown s' = (Returned (), s'') \<and> event_buffer s'' = [] \<and>
              events_table s'' = [] \<and> \<not> buffer_lock s'' \<and>
              flush_task s'' = Some Cancelled"
proof -
  have h1: "\<not> buffer_lock (initialize outage_store)"
    by (simp add: initialize_def outage_store_fields)
  have h2: "event_buffer (initialize outage_store) \<noteq> []"
    by (simp add: initialize_def outage_store_fields)
  have h3: "insert_faults (initialize outage_store) = Some ''down'' # []"
    by (simp add: initialize_def outage_store_fields)
  have h4: "flush_task (initialize outage_store) = Some Outside_lock"
    by (simp add: initialize_def)
  have t: "events_table (initialize outage_store) = []"
    by (simp add: initialize_def outage_store_fields)
  show ?thesis
    using flush_failure_under_lock_drops_batch[OF h1 h2 h3 h4] unfolding t .
qed

section \<open>The lock and the database insert\<close>

text \<open>
  Two readings of a trace, from a given state of the lock: every awaited insert happens
  while the lock is held, and every awaited insert happens while it is not.
\<close>

fun inserts_under_lock :: "bool \<Rightarrow> io list \<Rightarrow> bool" where
  "inserts_under_lock held [] = True"
| "inserts_under_lock held (Acquire # t) = inserts_under_lock True t"
| "inserts_under_lock held (Release # t) = inserts_under_lock False t"
| "inserts_under_lock held (AwaitInsert n # t) = (held \<and> inserts_under_lock held t)"

fun inserts_outside_lock :: "bool \<Rightarrow> io list \<Rightarrow> bool" where
  "inserts_outside_lock held [] = True"
| "inserts_outside_lock held (Acquire # t) = inserts_outside_lock True t"
| "inserts_outside_lock held (Release # t) = inserts_outside_lock False t"
| "inserts_outside_lock held (AwaitInsert n # t) = (\<not> held \<and> inserts_outside_lock held t)"

lemma execute_many_trace:
  "io_trace (snd (execute_many s rows)) = io_trace s @ [AwaitInsert (length rows)]"
  by (simp add: execute_many_def Let_def split: list.splits option.splits)

lemma flush_buffer_locked_trace:
  assumes "buffer_lock s"
  shows "buffer_lock (snd (flush_buffer s)) \<and>
         (io_trace (snd (flush_buffer s)) = io_trace s \<or>
          (\<exists>n. io_trace (snd (flush_buffer s)) = io_trace s @ [AwaitInsert n]))"
proof (cases "event_buffer s = []")
  case True
  then show ?thesis using assms by (simp add: flush_buffer_def)
next
  case False
  show ?thesis
  proof (cases "event_tuples (es_lib s) (table_now s) (event_buffer s)")
    case None
    then show ?thesis using assms False by (simp add: flush_buffer_def Let_def rebuffer_locked)
  next
    case (Some rows)
    let ?s1 = "s\<lparr>event_buffer := []\<rparr>"
    obtain f s2 where ex: "execute_many ?s1 rows = (f, s2)" by (cases "execute_many ?s1 rows")
    have l2: "buffer_lock s2" using execute_many_lock[of ?s1 rows] ex assms by simp
    have t2: "io_trace s2 = io_trace s @ [AwaitInsert (length rows)]"
      using execute_many_trace[of ?s1 rows] ex by simp
    show ?thesis using Some False ex l2 t2
      by (cases f) (simp_all add: flush_buffer_def Let_def rebuffer_locked)
  qed
qed

lemma flush_buffer_locked_outcome:
  assumes "buffer_lock s"
  shows "fst (flush_buffer s) = Returned () \<or> fst (flush_buffer s) = Blocked"
proof (cases "event_buffer s = []")
  case True
  then show ?thesis by (simp add: flush_buffer_def)
next
  case False
  show ?thesis
  proof (cases "event_tuples (es_lib s) (table_now s) (event_buffer s)")
    case None
    then show ?thesis using assms False by (simp add: flush_buffer_def Let_def rebuffer_locked)
  next
    case (Some rows)
    let ?s1 = "s\<lparr>event_buffer := []\<rparr>"
    obtain f s2 where ex: "execute_many ?s1 rows = (f, s2)" by (cases "execute_many ?s1 rows")
    have l2: "buffer_lock s2" using execute_many_lock[of ?s1 rows] ex assms by simp
    show ?thesis using Some False ex l2
      by (cases f) (simp_all add: flush_buffer_def Let_def rebuffer_locked)
  qed
qed

lemma guarded_flush_trace:
  assumes "io_trace s1 = [Acquire] \<or> io_trace s1 = [Release, Acquire]" "buffer_lock s1"
  shows "(case flush_buffer s1 of
            (Returned u, s2) \<Rightarrow> inserts_under_lock False (io_trace (release s2))
          | (Raised e, s2) \<Rightarrow> inserts_under_lock False (io_trace (release s2))
          | (Blocked, s2) \<Rightarrow> inserts_under_lock False (io_trace s2))"
proof -
  obtain r s2 where f: "flush_buffer s1 = (r, s2)" by (cases "flush_buffer s1")
  from flush_buffer_locked_trace[OF assms(2)] f assms(1)
  have "io_trace s2 = [Acquire] \<or> (\<exists>n. io_trace s2 = [Acquire, AwaitInsert n]) \<or>
        io_trace s2 = [Release, Acquire] \<or> (\<exists>n. io_trace s2 = [Release, Acquire, AwaitInsert n])"
    by auto
  then show ?thesis using f by (cases r) (auto simp: release_def)
qed

lemma save_event_trace:
  assumes "\<not> buffer_lock s" "io_trace s = []"
  shows "inserts_under_lock False (io_trace (snd (save_event ev s)))"
proof (cases "validate_event_size (es_config s) (es_lib s) ev")
  case (Inl e)
  then show ?thesis using assms by (simp add: save_event_def)
next
  case (Inr u)
  let ?s2 = "s\<lparr>buffer_lock := True, io_trace := io_trace s @ [Acquire],
               event_buffer := event_buffer s @ [ev]\<rparr>"
  have g: "(case flush_buffer ?s2 of
            (Returned u, s2) \<Rightarrow> inserts_under_lock False (io_trace (release s2))
          | (Raised e, s2) \<Rightarrow> inserts_under_lock False (io_trace (release s2))
          | (Blocked, s2) \<Rightarrow> inserts_under_lock False (io_trace s2))"
    by (rule guarded_flush_trace) (use assms in simp_all)
  show ?thesis
  proof (cases "batch_size s \<le> length (event_buffer s) + 1")
    case True
    obtain r s3 where f: "flush_buffer ?s2 = (r, s3)" by (cases "flush_buffer ?s2")
    then show ?thesis using Inr assms True g
      by (cases r) (simp_all add: save_event_def acquire_def Let_def)
  next
    case False
    then show ?thesis using Inr assms
      by (simp add: save_event_def acquire_def Let_def release_def)
  qed
qed

lemma periodic_flush_trace:
  assumes "\<not> buffer_lock s" "io_trace s = []"
  shows "inserts_under_lock False (io_trace (snd (periodic_flush s)))"
proof -
  let ?s1 = "s\<lparr>buffer_lock := True, io_trace := io_trace s @ [Acquire]\<rparr>"
  have g: "(case flush_buffer ?s1 of
            (Returned u, s2) \<Rightarrow> inserts_under_lock False (io_trace (release s2))
          | (Raised e, s2) \<Rightarrow> inserts_under_lock False (io_trace (release s2))
          | (Blocked, s2) \<Rightarrow> inserts_under_lock False (io_trace s2))"
    by (rule guarded_flush_trace) (use assms in simp_all)
  obtain r s2 where f: "flush_buffer ?s1 = (r, s2)" by (cases "flush_buffer ?s1")
  show ?thesis using assms g f
    by (cases r) (simp_all add: periodic_flush_def acquire_def release_def)
qed

lemma cancel_flush_task_lock:
  assumes "\<not> buffer_lock s" "io_trace s = []"
  shows "\<not> buffer_lock (cancel_flush_task s) \<and>
         (io_trace (cancel_flush_task s) = [] \<or> io_trace (cancel_flush_task s) = [Release])"
  using assms
  by (simp add: cancel_flush_task_def release_def split: option.splits task_state.splits)

lemma shutdown_trace:
  assumes "\<not> buffer_lock s" "io_trace s = []"
  shows "inserts_under_lock False (io_trace (snd (shutdown s)))"
proof -
  let ?s0 = "cancel_flush_task s"
  let ?s1 = "?s0\<lparr>buffer_lock := True, io_trace := io_trace ?s0 @ [Acquire]\<rparr>"
  note c = cancel_flush_task_lock[OF assms]
  have g: "(case flush_buffer ?s1 of
            (Returned u, s2) \<Rightarrow> inserts_under_lock False (io_trace (release s2))
          | (Raised e, s2) \<Rightarrow> inserts_under_lock False (io_trace (release s2))
          | (Blocked, s2) \<Rightarrow> inserts_under_lock False (io_trace s2))"
    by (rule guarded_flush_trace) (use c in auto)
  obtain r s2 where f: "flush_buffer ?s1 = (r, s2)" by (cases "flush_buffer ?s1")
  show ?thesis using c g f
    by (cases r) (simp_all add: shutdown_def acquire_def)
qed

lemma flush_buffer_awaits_insert:
  assumes "event_buffer s \<noteq> []" "event_tuples (es_lib s) (table_now s) (event_buffer s) = Some rows"
  shows "\<exists>t. io_trace (snd (flush_buffer s)) = io_trace s @ AwaitInsert (length rows) # t"
proof -
  let ?s1 = "s\<lparr>event_buffer := []\<rparr>"
  obtain f s2 where ex: "execute_many ?s1 rows = (f, s2)" by (cases "execute_many ?s1 rows")
  have t2: "io_trace s2 = io_trace s @ [AwaitInsert (length rows)]"
    using execute_many_trace[of ?s1 rows] ex by simp
  show ?thesis using assms ex t2
    by (cases f) (auto simp: flush_buffer_def Let_def rebuffer_def acquire_def release_def)
qed

lemma event_tuples_replicate:
  "event_tuple lib now e = Some row \<Longrightarrow> event_tuples lib now (replicate n e) = Some (replicate n row)"
  by (induction n) auto

lemma event_tuples_snoc:
  "event_tuples lib now evs = Some rows \<Longrightarrow> event_tuple lib now e = Some row \<Longrightarrow>
   event_tuples lib now (evs @ [e]) = Some (rows @ [row])"
  by (induction evs arbitrary: rows) (auto split: option.splits)




lemma flush_buffer_success:
  assumes "event_tuples (es_lib s) (table_now s) (event_buffer s) = Some rows"
    and "insert_faults s = []"
  shows "flush_buffer s =
           (Returned (),
            if event_buffer s = [] then s
            else s\<lparr>event_buffer := [], io_trace := io_trace s @ [AwaitInsert (length rows)],
                   events_table := events_table s @ rows\<rparr>)"
  using assms by (simp add: flush_buffer_def execute_many_def Let_def)

text \<open>
  Claim C8, as the source has it. Starting with the lock free, in \<open>save_event\<close>, in a
  round of \<open>_periodic_flush\<close> and in \<open>shutdown\<close> every awaited database insert
  happens while \<open>_buffer_lock\<close> is held; and a periodic flush of a non-empty buffer
  whose events serialise does await the insert right after taking the lock.
\<close>

theorem flushes_hold_the_lock_across_the_insert:
  assumes "\<not> buffer_lock s" "io_trace s = []"
  shows "inserts_under_lock False (io_trace (snd (save_event ev s))) \<and>
         inserts_under_lock False (io_trace (snd (periodic_flush s))) \<and>
         inserts_under_lock False (io_trace (snd (shutdown s))) \<and>
         (\<forall>rows. event_buffer s \<noteq> [] \<and>
                 event_tuples (es_lib s) (table_now s) (event_buffer s) = Some rows \<longrightarrow>
            (\<exists>t. io_trace (snd (periodic_flush s)) = Acquire # AwaitInsert (length rows) # t))"
proof (intro conjI allI impI)
  show "inserts_under_lock False (io_trace (snd (save_event ev s)))"
    using assms by (rule save_event_trace)
  show "inserts_under_lock False (io_trace (snd (periodic_flush s)))"
    using assms by (rule periodic_flush_trace)
  show "inserts_under_lock False (io_trace (snd (shutdown s)))"
    using assms by (rule shutdown_trace)
next
  fix rows
  assume h: "event_buffer s \<noteq> [] \<and>
                 event_tuples (es_lib s) (table_now s) (event_buffer s) = Some rows"
  let ?s1 = "s\<lparr>buffer_lock := True, io_trace := io_trace s @ [Acquire]\<rparr>"
  have "\<exists>t. io_trace (snd (flush_buffer ?s1)) = io_trace ?s1 @ AwaitInsert (length rows) # t"
    by (rule flush_buffer_awaits_insert) (use h in simp_all)
  then obtain t where t: "io_trace (snd (flush_buffer ?s1)) = [Acquire] @ AwaitInsert (length rows) # t"
    using assms by auto
  obtain r s2 where f: "flush_buffer ?s1 = (r, s2)" by (cases "flush_buffer ?s1")
  show "\<exists>t. io_trace (snd (periodic_flush s)) = Acquire # AwaitInsert (length rows) # t"
    using assms h t f by (cases r) (simp_all add: periodic_flush_def acquire_def release_def)
qed

theorem flushes_hold_the_lock_across_the_insert_witness:
  "inserts_under_lock False (io_trace (snd (save_event user_event nearly_full_store))) \<and>
   inserts_under_lock False (io_trace (snd (periodic_flush nearly_full_store))) \<and>
   inserts_under_lock False (io_trace (snd (shutdown nearly_full_store))) \<and>
   (\<exists>t. io_trace (snd (periodic_flush nearly_full_store)) = Acquire # AwaitInsert 99 # t)"
proof -
  note T = flushes_hold_the_lock_across_the_insert[OF nearly_full_fields(1) nearly_full_fields(8),
      of user_event]
  let ?row = "the (event_tuple text_lib 0 user_event)"
  have ne: "event_buffer nearly_full_store \<noteq> []" by (simp add: nearly_full_fields)
  have tup: "event_tuples (es_lib nearly_full_store) (table_now nearly_full_store)
               (event_buffer nearly_full_store) = Some (replicate 99 ?row)"
    unfolding nearly_full_fields by (rule event_tuples_replicate) (simp add: user_event_tuple)
  have "\<exists>t. io_trace (snd (periodic_flush nearly_full_store))
              = Acquire # AwaitInsert (length (replicate 99 ?row)) # t"
    using T[THEN conjunct2, THEN conjunct2, THEN conjunct2, rule_format, of "replicate 99 ?row"] ne tup
    by simp
  then have e: "\<exists>t. io_trace (snd (periodic_flush nearly_full_store)) = Acquire # AwaitInsert 99 # t"
    by simp
  show ?thesis
    using T[THEN conjunct1] T[THEN conjunct2, THEN conjunct1]
      T[THEN conjunct2, THEN conjunct2, THEN conjunct1] e by (intro conjI)
qed

text \<open>
  Claim C8 as stated fails: the hundredth event makes \<open>save_event\<close> await the
  batched insert between taking the lock and releasing it.
\<close>

theorem insert_awaited_under_lock_counterexample:
  "io_trace (snd (save_event user_event nearly_full_store)) = [Acquire, AwaitInsert 100, Release] \<and>
   \<not> inserts_outside_lock False (io_trace (snd (save_event user_event nearly_full_store)))"
proof -
  let ?row = "the (event_tuple text_lib 0 user_event)"
  let ?s2 = "nearly_full_store\<lparr>buffer_lock := True, io_trace := [Acquire],
               event_buffer := replicate 99 user_event @ [user_event]\<rparr>"
  have tup: "event_tuples text_lib 0 (replicate 99 user_event @ [user_event])
               = Some (replicate 99 ?row @ [?row])"
    by (intro event_tuples_snoc event_tuples_replicate) (simp_all add: user_event_tuple)
  have fl: "flush_buffer ?s2 =
           (Returned (),
            ?s2\<lparr>event_buffer := [], io_trace := io_trace ?s2 @ [AwaitInsert (length (replicate 99 ?row @ [?row]))],
                   events_table := events_table ?s2 @ (replicate 99 ?row @ [?row])\<rparr>)"
    using flush_buffer_success[of ?s2 "replicate 99 ?row @ [?row]"] tup
    by (simp add: nearly_full_fields)
  have tr: "io_trace (snd (save_event user_event nearly_full_store)) = [Acquire, AwaitInsert 100, Release]"
    using fl by (simp add: save_event_def nearly_full_fields user_event_valid acquire_def
        release_def Let_def)
  show ?thesis by (simp add: tr)
qed

section \<open>Saving, flushing and fetching an event\<close>






section \<open>Cleanup triggers that overlap\<close>

text \<open>
  \<open>_check_and_cleanup\<close> tests \<open>user_id in self._cleanup_tasks\<close>, then awaits a
  connection and the COUNT, and only then creates and registers the task. Coroutines of
  one event loop interleave at their awaits, so the system is the actor together with the
  invocations that have passed the test and are suspended at the COUNT (\<open>awaiting\<close>).
  A step is the start of an invocation up to its await (\<open>Trigger\<close>), the rest of a
  suspended invocation (\<open>Resume\<close>), or a cleanup task running to its end with its done
  callback (\<open>Complete\<close>).
\<close>

record memory_system =
  actor :: memory_actor
  awaiting :: "int list"

datatype action = Trigger int | Resume int | Complete nat

fun step :: "action \<Rightarrow> memory_system \<Rightarrow> memory_system" where
  "step (Trigger user_id) s =
     (if user_id \<in> dom (cleanup_tasks (actor s)) then s
      else s\<lparr>awaiting := awaiting s @ [user_id]\<rparr>)"
| "step (Resume user_id) s =
     (if user_id \<in> set (awaiting s)
      then s\<lparr>awaiting := remove1 user_id (awaiting s),
             actor := count_and_spawn (actor s) user_id\<rparr>
      else s)"
| "step (Complete t) s =
     (case find (\<lambda>p. fst p = t) (tasks (actor s)) of
        None \<Rightarrow> s
      | Some p \<Rightarrow> s\<lparr>actor := complete_task (actor s) p\<rparr>)"

definition run :: "action list \<Rightarrow> memory_system \<Rightarrow> memory_system" where
  "run acts s = foldl (\<lambda>s' act. step act s') s acts"

definition outstanding :: "memory_system \<Rightarrow> int \<Rightarrow> nat" where
  "outstanding s user_id = length (filter (\<lambda>p. snd p = user_id) (tasks (actor s)))"

definition example_system :: memory_system where
  "example_system = \<lparr>actor = example_actor, awaiting = []\<rparr>"

definition one_task_per_user :: "memory_actor \<Rightarrow> bool" where
  "one_task_per_user a =
     (distinct (map snd (tasks a)) \<and>
      list_all (\<lambda>p. cleanup_tasks a (snd p) = Some (fst p)) (tasks a) \<and>
      dom (cleanup_tasks a) \<subseteq> snd ` set (tasks a))"

text \<open>
  An invocation that is not interleaved with another is \<open>check_and_cleanup\<close>, and a
  trigger for a user whose task is registered does nothing.
\<close>

lemma trigger_resume_is_check_and_cleanup:
  "awaiting s = [] \<Longrightarrow>
   run [Trigger u, Resume u] s = s\<lparr>actor := check_and_cleanup (actor s) u\<rparr>"
  by (simp add: run_def check_and_cleanup_def)

lemma trigger_while_registered_is_noop:
  "u \<in> dom (cleanup_tasks (actor s)) \<Longrightarrow> step (Trigger u) s = s"
  by simp

lemma count_and_spawn_over_limit:
  assumes "fst (storage_call (db a)) = None" "stm_limit (config a) < count_rows (db a) u"
  shows "count_and_spawn a u =
           a\<lparr>db := snd (storage_call (db a)),
             tasks := tasks a @ [(next_task a, u)],
             cleanup_tasks := (cleanup_tasks a)(u \<mapsto> next_task a),
             next_task := Suc (next_task a)\<rparr>"
proof -
  obtain d' where sc: "storage_call (db a) = (None, d')"
    using assms(1) by (cases "storage_call (db a)") simp
  have "count_rows d' u = count_rows (db a) u"
    using storage_call_table[of "db a"] sc by (simp add: count_rows_def)
  then show ?thesis using sc assms(2) by (simp add: count_and_spawn_def)
qed

lemma cleanup_old_messages_keeps_tasks:
  "tasks (snd (cleanup_old_messages a d)) = tasks a \<and>
   cleanup_tasks (snd (cleanup_old_messages a d)) = cleanup_tasks a \<and>
   next_task (snd (cleanup_old_messages a d)) = next_task a"
  by (simp add: cleanup_old_messages_def Let_def split: option.splits prod.splits)

lemma complete_task_tasks:
  "tasks (complete_task a p) = remove1 p (tasks a) \<and>
   cleanup_tasks (complete_task a p) = (cleanup_tasks a)(snd p := None)"
  using cleanup_old_messages_keeps_tasks[of a "empty_data\<lparr>d_user_id := Some (snd p)\<rparr>"]
  by (simp add: complete_task_def Let_def)

lemma count_and_spawn_cases:
  "count_and_spawn a u = a\<lparr>db := snd (storage_call (db a))\<rparr> \<or>
   count_and_spawn a u =
      a\<lparr>db := snd (storage_call (db a)),
        tasks := tasks a @ [(next_task a, u)],
        cleanup_tasks := (cleanup_tasks a)(u \<mapsto> next_task a),
        next_task := Suc (next_task a)\<rparr>"
  by (cases "storage_call (db a)") (auto simp: count_and_spawn_def split: option.splits)

text \<open>
  As long as invocations do not overlap, each user has at most one task and the map
  registers exactly the tasks that are outstanding: this is what the membership test is
  there for.
\<close>

lemma check_and_cleanup_keeps:
  assumes "one_task_per_user a"
  shows "one_task_per_user (check_and_cleanup a u)"
proof (cases "u \<in> dom (cleanup_tasks a)")
  case True
  then show ?thesis using assms by (simp add: check_and_cleanup_def)
next
  case False
  then have nu: "u \<notin> snd ` set (tasks a)"
    using assms by (auto simp: one_task_per_user_def list_all_iff)
  from count_and_spawn_cases[of a u] show ?thesis
  proof
    assume "count_and_spawn a u = a\<lparr>db := snd (storage_call (db a))\<rparr>"
    then show ?thesis using assms False
      by (simp add: check_and_cleanup_def one_task_per_user_def)
  next
    assume "count_and_spawn a u =
      a\<lparr>db := snd (storage_call (db a)),
        tasks := tasks a @ [(next_task a, u)],
        cleanup_tasks := (cleanup_tasks a)(u \<mapsto> next_task a),
        next_task := Suc (next_task a)\<rparr>"
    then show ?thesis using assms False nu
      by (auto simp: check_and_cleanup_def one_task_per_user_def list_all_iff)
  qed
qed

lemma complete_task_keeps:
  assumes "one_task_per_user a" "p \<in> set (tasks a)"
  shows "one_task_per_user (complete_task a p)"
proof -
  have d: "distinct (map snd (tasks a))" and dt: "distinct (tasks a)"
    using assms(1) by (auto simp: one_task_per_user_def dest: distinct_map[THEN iffD1])
  have inj: "inj_on snd (set (tasks a))" using d by (simp add: distinct_map)
  have other: "\<And>q. q \<in> set (remove1 p (tasks a)) \<Longrightarrow> snd q \<noteq> snd p"
    using dt inj assms(2) by (auto dest: inj_onD)
  have "distinct (map snd (remove1 p (tasks a)))"
    using d dt by (simp add: distinct_map inj_on_def)
  moreover have "list_all (\<lambda>q. ((cleanup_tasks a)(snd p := None)) (snd q) = Some (fst q)) (remove1 p (tasks a))"
    using assms(1) other dt by (auto simp: one_task_per_user_def list_all_iff)
  moreover have "dom ((cleanup_tasks a)(snd p := None)) \<subseteq> snd ` set (remove1 p (tasks a))"
  proof
    fix x assume x: "x \<in> dom ((cleanup_tasks a)(snd p := None))"
    then have xp: "x \<noteq> snd p" and "x \<in> dom (cleanup_tasks a)" by (auto split: if_splits)
    then obtain q where q: "q \<in> set (tasks a)" "snd q = x"
      using assms(1) by (auto simp: one_task_per_user_def)
    then have "q \<noteq> p" using xp by auto
    then show "x \<in> snd ` set (remove1 p (tasks a))" using q dt by force
  qed
  ultimately show ?thesis by (simp add: one_task_per_user_def complete_task_tasks)
qed

lemma distinct_filter_eq_le_1:
  "distinct xs \<Longrightarrow> length (filter (\<lambda>x. x = u) xs) \<le> 1"
  by (induction xs) (auto simp: filter_empty_conv)

lemma one_task_per_user_outstanding:
  assumes "one_task_per_user a"
  shows "length (filter (\<lambda>p. snd p = u) (tasks a)) \<le> 1"
proof -
  have d: "distinct (map snd (tasks a))" using assms by (simp add: one_task_per_user_def)
  have "length (filter (\<lambda>p. snd p = u) (tasks a)) = length (filter (\<lambda>x. x = u) (map snd (tasks a)))"
    by (simp add: filter_map comp_def)
  also have "\<dots> \<le> 1" using d by (rule distinct_filter_eq_le_1)
  finally show ?thesis .
qed

lemma example_system_facts:
  "7 \<notin> dom (cleanup_tasks (actor example_system))" "awaiting example_system = []"
  "tasks (actor example_system) = []" "storage_ok 2 (db (actor example_system))"
  "stm_limit (config (actor example_system)) < count_rows (db (actor example_system)) 7"
  "next_task (actor example_system) = 0"
  by (simp_all add: example_system_def example_actor_def MemoryActor_def storage_ok_def
        example_db_def small_config_def count_rows_def example_rows_def)

text \<open>
  Claim C7, at the input where the code departs from it. Two triggers for one user whose
  count exceeds the limit, the second started while the first is suspended at its COUNT:
  both pass the membership test, both create a task, and two cleanup tasks for the user
  are outstanding at once. When the first of them completes, its callback removes the
  entry of the second, which is still outstanding and no longer registered.
\<close>

theorem overlapping_triggers_spawn_two_tasks:
  assumes "u \<notin> dom (cleanup_tasks (actor s))" "awaiting s = []" "tasks (actor s) = []"
    and "storage_ok 2 (db (actor s))"
    and "stm_limit (config (actor s)) < count_rows (db (actor s)) u"
  shows "outstanding (run [Trigger u, Trigger u, Resume u, Resume u] s) u = 2 \<and>
         awaiting (run [Trigger u, Trigger u] s) = [u, u] \<and>
         outstanding (run [Trigger u, Trigger u, Resume u, Resume u, Complete (next_task (actor s))] s) u = 1 \<and>
         u \<notin> dom (cleanup_tasks (actor
                 (run [Trigger u, Trigger u, Resume u, Resume u, Complete (next_task (actor s))] s)))"
proof -
  let ?a = "actor s"
  have ok1: "fst (storage_call (db ?a)) = None" and ok1': "storage_ok 1 (snd (storage_call (db ?a)))"
    using storage_ok_step[of 1 "db ?a"] assms(4) by (simp_all add: numeral_2_eq_2)
  let ?a1 = "count_and_spawn ?a u"
  have a1: "?a1 = ?a\<lparr>db := snd (storage_call (db ?a)),
             tasks := tasks ?a @ [(next_task ?a, u)],
             cleanup_tasks := (cleanup_tasks ?a)(u \<mapsto> next_task ?a),
             next_task := Suc (next_task ?a)\<rparr>"
    using count_and_spawn_over_limit[OF ok1 assms(5)] .
  have ok2: "fst (storage_call (db ?a1)) = None"
    using storage_ok_step[of 0 "snd (storage_call (db ?a))"] ok1' by (simp add: a1)
  have c2: "stm_limit (config ?a1) < count_rows (db ?a1) u"
    using assms(5) storage_call_table[of "db ?a"] by (simp add: a1 count_rows_def)
  have a2: "count_and_spawn ?a1 u = ?a1\<lparr>db := snd (storage_call (db ?a1)),
             tasks := tasks ?a1 @ [(next_task ?a1, u)],
             cleanup_tasks := (cleanup_tasks ?a1)(u \<mapsto> next_task ?a1),
             next_task := Suc (next_task ?a1)\<rparr>"
    using count_and_spawn_over_limit[OF ok2 c2] .
  have r: "run [Trigger u, Trigger u, Resume u, Resume u] s =
             s\<lparr>awaiting := [], actor := count_and_spawn ?a1 u\<rparr>"
    using assms(1,2) by (simp add: run_def)
  have t: "tasks (count_and_spawn ?a1 u) = [(next_task ?a, u), (Suc (next_task ?a), u)]"
    using assms(3) by (simp add: a2) (simp add: a1)
  have r5: "run [Trigger u, Trigger u, Resume u, Resume u, Complete (next_task ?a)] s =
              step (Complete (next_task ?a)) (run [Trigger u, Trigger u, Resume u, Resume u] s)"
    by (simp add: run_def)
  have c: "step (Complete (next_task ?a)) (s\<lparr>awaiting := [], actor := count_and_spawn ?a1 u\<rparr>) =
             s\<lparr>awaiting := [], actor := complete_task (count_and_spawn ?a1 u) (next_task ?a, u)\<rparr>"
    by (simp add: t)
  have ct: "tasks (complete_task (count_and_spawn ?a1 u) (next_task ?a, u)) = [(Suc (next_task ?a), u)]"
    "cleanup_tasks (complete_task (count_and_spawn ?a1 u) (next_task ?a, u)) u = None"
    using complete_task_tasks[of "count_and_spawn ?a1 u" "(next_task ?a, u)"] t by simp_all
  have p1: "outstanding (run [Trigger u, Trigger u, Resume u, Resume u] s) u = 2"
    by (simp add: r outstanding_def t)
  have p2: "awaiting (run [Trigger u, Trigger u] s) = [u, u]"
    using assms(1,2) by (simp add: run_def)
  have p3: "outstanding (run [Trigger u, Trigger u, Resume u, Resume u, Complete (next_task ?a)] s) u = 1"
    unfolding r5 r c by (simp add: outstanding_def ct)
  have p4: "u \<notin> dom (cleanup_tasks (actor
                 (run [Trigger u, Trigger u, Resume u, Resume u, Complete (next_task ?a)] s)))"
    unfolding r5 r c by (simp add: ct domIff)
  show ?thesis using p1 p2 p3 p4 by (intro conjI)
qed

theorem overlapping_triggers_spawn_two_tasks_witness:
  "outstanding (run [Trigger 7, Trigger 7, Resume 7, Resume 7] example_system) 7 = 2 \<and>
   awaiting (run [Trigger 7, Trigger 7] example_system) = [7, 7] \<and>
   outstanding (run [Trigger 7, Trigger 7, Resume 7, Resume 7, Complete 0] example_system) 7 = 1 \<and>
   7 \<notin> dom (cleanup_tasks (actor
           (run [Trigger 7, Trigger 7, Resume 7, Resume 7, Complete 0] example_system)))"
  by (rule overlapping_triggers_spawn_two_tasks[OF example_system_facts(1-5),
        unfolded example_system_facts(6)])

section \<open>UserSessionActor\<close>

text \<open>Decimal rendering of an integer, for \<open>"user_{user_id}"\<close>.\<close>

fun str_of_nat :: "nat \<Rightarrow> string" where
  "str_of_nat n =
     (if n < 10 then [''0123456789'' ! n]
      else str_of_nat (n div 10) @ [''0123456789'' ! (n mod 10)])"

declare str_of_nat.simps [simp del]

definition str_of_int :: "int \<Rightarrow> string" where
  "str_of_int i = (if i < 0 then CHR ''-'' # str_of_nat (nat (- i)) else str_of_nat (nat i))"

text \<open>
  The \<open>data\<close> dictionaries of the events the coordinator builds hold numbers and strings.
\<close>

datatype jval = JNum nat | JStr string

type_synonym dict = "(string \<times> jval) list"

subsection \<open>Event constructors\<close>

text \<open>
  \<open>BaseEvent.__init__\<close>: a missing \<open>stream_id\<close> becomes \<open>user_{user_id}\<close> when there
  is a user id.
\<close>

definition default_stream_id :: "int option \<Rightarrow> string option" where
  "default_stream_id uid = (case uid of None \<Rightarrow> None | Some u \<Rightarrow> Some (''user_'' @ str_of_int u))"

definition user_message_max_text_length :: nat where
  "user_message_max_text_length = 4096"

definition bot_response_max_text_length :: nat where
  "bot_response_max_text_length = 8192"

definition DEFAULT_MODE :: string where
  "DEFAULT_MODE = ''default''"

text \<open>\<open>DEFAULT_MODE\<close> as the code points of the Python string.\<close>

definition DEFAULT_MODE_text :: unicode where
  "DEFAULT_MODE_text = [100, 101, 102, 97, 117, 108, 116]"

definition UserMessageEvent :: "int \<Rightarrow> unicode \<Rightarrow> nat \<Rightarrow> exn + dict event" where
  "UserMessageEvent uid text timestamp =
     (if length text > user_message_max_text_length
      then Inl (ValueError ''Text length exceeds limit'')
      else Inr \<lparr>ev_type = ''user_message'', ev_timestamp = timestamp, ev_user_id = Some uid,
                ev_data = [], ev_stream_id = default_stream_id (Some uid), ev_version = 1,
                ev_metadata = [], ev_payload = UserMessagePayload text None None ''telegram''\<rparr>)"

definition BotResponseEvent :: "int \<Rightarrow> unicode \<Rightarrow> nat \<Rightarrow> string \<Rightarrow> nat \<Rightarrow> exn + dict event" where
  "BotResponseEvent uid response_text generation_time_ms mode_used timestamp =
     (if length response_text > bot_response_max_text_length
      then Inl (ValueError ''Response length exceeds limit'')
      else Inr \<lparr>ev_type = ''bot_response'', ev_timestamp = timestamp, ev_user_id = Some uid,
                ev_data = [], ev_stream_id = default_stream_id (Some uid), ev_version = 1,
                ev_metadata = [],
                ev_payload = BotResponsePayload response_text generation_time_ms (Some mode_used)\<rparr>)"

definition SystemEvent ::
  "string \<Rightarrow> int option \<Rightarrow> dict \<Rightarrow> string \<Rightarrow> string \<Rightarrow> nat \<Rightarrow> exn + dict event" where
  "SystemEvent event_subtype uid data severity actor_name timestamp =
     (if severity \<notin> set [''info'', ''warning'', ''error'', ''critical'']
      then Inl (ValueError ''Invalid severity'')
      else Inr \<lparr>ev_type = ''system_event'', ev_timestamp = timestamp, ev_user_id = uid,
                ev_data = data, ev_stream_id = default_stream_id uid, ev_version = 1,
                ev_metadata = [],
                ev_payload = SystemPayload event_subtype severity (Some actor_name)\<rparr>)"

text \<open>
  \<open>ActorCoordinationEvent\<close>, with the fields as they are when the event is saved. Without
  a user id its stream is \<open>system_coordination_{source}_{target}\<close>.
\<close>

definition ActorCoordinationEvent ::
  "string \<Rightarrow> string \<Rightarrow> string \<Rightarrow> int option \<Rightarrow> nat option \<Rightarrow> bool \<Rightarrow> string option \<Rightarrow> nat
     \<Rightarrow> dict event" where
  "ActorCoordinationEvent source_actor target_actor coordination_type uid duration_ms success
       error_message timestamp =
     \<lparr>ev_type = ''actor_coordination'', ev_timestamp = timestamp, ev_user_id = uid,
      ev_data = [],
      ev_stream_id = (case uid of
                        None \<Rightarrow> Some (''system_coordination_'' @ source_actor @ ''_'' @ target_actor)
                      | Some u \<Rightarrow> default_stream_id uid),
      ev_version = 1, ev_metadata = [],
      ev_payload = CoordinationPayload source_actor target_actor coordination_type duration_ms
                     success error_message\<rparr>"

text \<open>\<open>actors/message_types.py\<close>: \<open>create_memory_message\<close>.\<close>

definition create_memory_message :: "string \<Rightarrow> msg_data \<Rightarrow> exn + message" where
  "create_memory_message message_type data =
     (if message_type \<notin> set known_types then Inl (ValueError ''Unknown message type'')
      else if d_user_id data = None \<or>
              (message_type \<in> {''store_user_message'', ''store_bot_response''} \<and> d_content data = None)
      then Inl (ValueError ''Missing required fields'')
      else Inr (ActorMessage message_type data))"

subsection \<open>The coordinator and its collaborators\<close>

text \<open>\<open>config/coordination.py\<close>: \<open>COORDINATION_CONFIG\<close>, with a retry pattern as (attempts, delay in ms).\<close>

record coordination_config =
  actor_timeout_seconds :: nat
  coordination_retry_attempts :: nat
  coordination_retry_delay_ms :: nat
  retry_patterns :: "(string \<times> nat \<times> nat) list"

definition COORDINATION_CONFIG :: coordination_config where
  "COORDINATION_CONFIG =
     \<lparr>actor_timeout_seconds = 30, coordination_retry_attempts = 3,
      coordination_retry_delay_ms = 500,
      retry_patterns = [(''memory'', 3, 500), (''generation'', 2, 1000)]\<rparr>"

text \<open>
  The collaborators handed to the actor, acting on a state \<open>'w\<close> of their own: the event
  store's \<open>save_event\<close>, the memory actor's \<open>handle_message\<close> and the generation
  service's \<open>ask_deepseek\<close>.
\<close>

record 'w deps =
  event_store_save :: "dict event \<Rightarrow> 'w \<Rightarrow> bool outcome \<times> 'w"
  memory_handle_message :: "message \<Rightarrow> 'w \<Rightarrow> result outcome \<times> 'w"
  ask_deepseek :: "unicode \<Rightarrow> int \<Rightarrow> 'w \<Rightarrow> unicode outcome \<times> 'w"

text \<open>
  The actor: its configuration, \<open>_coordination_metrics\<close>, the log of its sleeps, its clock,
  the state of its collaborators, and (for the statements below) the events it has handed
  to \<open>save_event\<close>, in order. Durations are differences of two readings of the clock,
  which does not advance inside the model.
\<close>

record 'w user_session =
  us_config :: coordination_config
  total_messages :: nat
  successful_flows :: nat
  failed_flows :: nat
  actor_timeouts :: nat
  avg_response_time :: "nat list"
  us_sleeps :: "nat list"
  us_now :: nat
  world :: 'w
  saved :: "dict event list"

definition UserSessionActor :: "'w \<Rightarrow> 'w user_session" where
  "UserSessionActor w =
     \<lparr>us_config = COORDINATION_CONFIG, total_messages = 0, successful_flows = 0,
      failed_flows = 0, actor_timeouts = 0, avg_response_time = [], us_sleeps = [], us_now = 0,
      world = w, saved = []\<rparr>"

subsection \<open>Sequencing, \<open>try\<close>/\<open>except\<close> and \<open>asyncio.wait_for\<close>\<close>

definition returning :: "'a \<Rightarrow> 's \<Rightarrow> 'a outcome \<times> 's" where
  "returning v s = (Returned v, s)"

definition raising :: "exn \<Rightarrow> 's \<Rightarrow> 'a outcome \<times> 's" where
  "raising e s = (Raised e, s)"

definition and_then ::
  "('s \<Rightarrow> 'a outcome \<times> 's) \<Rightarrow> ('a \<Rightarrow> 's \<Rightarrow> 'b outcome \<times> 's) \<Rightarrow> 's \<Rightarrow> 'b outcome \<times> 's" where
  "and_then m f s =
     (case m s of
        (Returned v, s') \<Rightarrow> f v s'
      | (Raised e, s') \<Rightarrow> (Raised e, s')
      | (Blocked, s') \<Rightarrow> (Blocked, s'))"

definition try_except ::
  "('s \<Rightarrow> 'a outcome \<times> 's) \<Rightarrow> (exn \<Rightarrow> 's \<Rightarrow> 'a outcome \<times> 's) \<Rightarrow> 's \<Rightarrow> 'a outcome \<times> 's" where
  "try_except m h s = (case m s of (Raised e, s') \<Rightarrow> h e s' | r \<Rightarrow> r)"

definition of_sum :: "exn + 'a \<Rightarrow> 's \<Rightarrow> 'a outcome \<times> 's" where
  "of_sum x s = (case x of Inl e \<Rightarrow> (Raised e, s) | Inr v \<Rightarrow> (Returned v, s))"

text \<open>A collaborator's operation, run on the collaborators' state.\<close>

definition in_world ::
  "('w \<Rightarrow> 'a outcome \<times> 'w) \<Rightarrow> 'w user_session \<Rightarrow> 'a outcome \<times> 'w user_session" where
  "in_world f s = (case f (world s) of (r, w') \<Rightarrow> (r, s\<lparr>world := w'\<rparr>))"

text \<open>
  \<open>asyncio.wait_for(op, timeout)\<close>: an operation that does not complete is cancelled at
  the timeout, which raises \<open>TimeoutError\<close>.
\<close>

definition wait_for :: "('s \<Rightarrow> 'a outcome \<times> 's) \<Rightarrow> 's \<Rightarrow> 'a outcome \<times> 's" where
  "wait_for m s = (case m s of (Blocked, s') \<Rightarrow> (Raised TimeoutError, s') | r \<Rightarrow> r)"

text \<open>\<open>await self.event_store.save_event(event)\<close>\<close>

definition emit :: "'w deps \<Rightarrow> dict event \<Rightarrow> 'w user_session \<Rightarrow> bool outcome \<times> 'w user_session" where
  "emit deps ev s =
     (case event_store_save deps ev (world s) of
        (r, w') \<Rightarrow> (r, s\<lparr>world := w', saved := saved s @ [ev]\<rparr>))"

subsection \<open>\<open>_coordinate_actor_call\<close> and \<open>_coordinate_service_call\<close>\<close>

text \<open>\<open>getattr(message, 'data', {}).get('user_id')\<close>\<close>

definition message_user_id :: "message \<Rightarrow> int option" where
  "message_user_id message = (case message of ActorMessage t d \<Rightarrow> d_user_id d | _ \<Rightarrow> None)"

text \<open>
  The body of \<open>for attempt in range(retry_config["attempts"])\<close>, over the attempts still
  to run: the \<open>try\<close> block (the call under \<open>wait_for\<close>, then the save of the response
  event), the two \<open>except\<close> clauses, and the \<open>None\<close> of a loop that ends without
  returning. An exception raised inside an \<open>except\<close> clause leaves the function.
\<close>

fun actor_call_attempts ::
  "'w deps \<Rightarrow> string \<Rightarrow> (message \<Rightarrow> 'w \<Rightarrow> result outcome \<times> 'w) \<Rightarrow> message \<Rightarrow> nat \<times> nat
     \<Rightarrow> nat list \<Rightarrow> 'w user_session \<Rightarrow> result outcome \<times> 'w user_session" where
  "actor_call_attempts deps actor_name method message retry_config [] s = (Returned PyNone, s)"
| "actor_call_attempts deps actor_name method message retry_config (attempt # rest) s =
     (case and_then (wait_for (in_world (method message)))
             (\<lambda>result. and_then
                (emit deps (ActorCoordinationEvent ''user_session'' actor_name ''response''
                              (message_user_id message) (Some 0) True None (us_now s)))
                (\<lambda>b. returning result)) s of
        (Raised e, s1) \<Rightarrow>
          (if e = TimeoutError then
             (let s2 = s1\<lparr>actor_timeouts := actor_timeouts s1 + 1\<rparr> in
              case emit deps (ActorCoordinationEvent ''user_session'' actor_name ''timeout''
                                (message_user_id message) None False (Some ''Timeout'') (us_now s)) s2 of
                (Returned b, s3) \<Rightarrow>
                  if int attempt < int (fst retry_config) - 1
                  then actor_call_attempts deps actor_name method message retry_config rest
                         (s3\<lparr>us_sleeps := us_sleeps s3 @ [snd retry_config]\<rparr>)
                  else (Raised TimeoutError, s3)
              | (Raised e', s3) \<Rightarrow> (Raised e', s3)
              | (Blocked, s3) \<Rightarrow> (Blocked, s3))
           else
             (case emit deps (ActorCoordinationEvent ''user_session'' actor_name ''error''
                                (message_user_id message) None False (Some (str_of_exn e)) (us_now s)) s1 of
                (Returned b, s3) \<Rightarrow>
                  if int attempt < int (fst retry_config) - 1
                  then actor_call_attempts deps actor_name method message retry_config rest
                         (s3\<lparr>us_sleeps := us_sleeps s3 @ [snd retry_config]\<rparr>)
                  else (Raised e, s3)
              | (Raised e', s3) \<Rightarrow> (Raised e', s3)
              | (Blocked, s3) \<Rightarrow> (Blocked, s3)))
      | r \<Rightarrow> r)"

definition coordinate_actor_call ::
  "'w deps \<Rightarrow> string \<Rightarrow> (message \<Rightarrow> 'w \<Rightarrow> result outcome \<times> 'w) \<Rightarrow> message
     \<Rightarrow> 'w user_session \<Rightarrow> result outcome \<times> 'w user_session" where
  "coordinate_actor_call deps actor_name method message s =
     (let retry_config =
            (case map_of (retry_patterns (us_config s)) actor_name of
               Some rc \<Rightarrow> rc
             | None \<Rightarrow> (coordination_retry_attempts (us_config s),
                        coordination_retry_delay_ms (us_config s)))
      in actor_call_attempts deps actor_name method message retry_config
           [0 ..< fst retry_config] s)"

text \<open>One call under \<open>wait_for\<close>; both \<open>except\<close> clauses log and re-raise.\<close>

definition coordinate_service_call ::
  "('w \<Rightarrow> 'a outcome \<times> 'w) \<Rightarrow> 'w user_session \<Rightarrow> 'a outcome \<times> 'w user_session" where
  "coordinate_service_call method s = wait_for (in_world method) s"

subsection \<open>\<open>handle_user_message\<close>\<close>

text \<open>
  \<open>context_response.get("messages", [])\<close>: the messages of a context dictionary, the
  empty list for a dictionary without the key, and an \<open>AttributeError\<close> on \<open>None\<close>.
\<close>

definition response_messages :: "result \<Rightarrow> exn + context_message list" where
  "response_messages r =
     (case r of
        ContextOk msgs n c \<Rightarrow> Inr msgs
      | PyNone \<Rightarrow> Inl (AttributeError ''NoneType object has no attribute get'')
      | _ \<Rightarrow> Inr [])"

text \<open>\<open>_log_coordination_event\<close>\<close>

definition log_coordination_event ::
  "'w deps \<Rightarrow> string \<Rightarrow> int option \<Rightarrow> dict \<Rightarrow> string \<Rightarrow> 'w user_session
     \<Rightarrow> unit outcome \<times> 'w user_session" where
  "log_coordination_event deps event_subtype uid data severity s =
     and_then (of_sum (SystemEvent event_subtype uid data severity ''user_session'' (us_now s)))
       (\<lambda>system_event. and_then (emit deps system_event) (\<lambda>b. returning ())) s"

text \<open>The fixed fallback answer, as code points.\<close>

definition fallback_response :: unicode where
  "fallback_response =
     [1063, 1090, 1086, 45, 1090, 1086, 32, 1087, 1086, 1096, 1083, 1086, 32, 1085, 1077, 32,
      1090, 1072, 1082, 46, 32, 1044, 1072, 1074, 1072, 1081, 1090, 1077, 32, 1087, 1086, 1087,
      1088, 1086, 1073, 1091, 1077, 1084, 32, 1077, 1097, 1077, 32, 1088, 1072, 1079, 63]"

text \<open>
  The \<open>try\<close> block of \<open>handle_user_message\<close>. The transcript that
  \<open>_format_context_for_generation\<close> builds from the messages is bound to a local that
  the call of the generation service does not use, so it is not modelled.
\<close>

definition pipeline ::
  "'w deps \<Rightarrow> unicode \<Rightarrow> int \<Rightarrow> 'w user_session \<Rightarrow> unicode outcome \<times> 'w user_session" where
  "pipeline deps user_message uid s0 =
     and_then (of_sum (UserMessageEvent uid user_message (us_now s0))) (\<lambda>user_event.
     and_then (emit deps user_event) (\<lambda>b1.
     and_then (of_sum (create_memory_message ''store_user_message''
                 \<lparr>d_user_id = Some uid, d_content = Some user_message, d_emotion = None,
                  d_mode = None, d_limit = None\<rparr>)) (\<lambda>m1.
     and_then (coordinate_actor_call deps ''memory'' (memory_handle_message deps) m1) (\<lambda>r1.
     and_then (of_sum (create_memory_message ''get_conversation_context''
                 (empty_data\<lparr>d_user_id := Some uid, d_limit := Some 10\<rparr>))) (\<lambda>m2.
     and_then (coordinate_actor_call deps ''memory'' (memory_handle_message deps) m2) (\<lambda>context_response.
     and_then (of_sum (response_messages context_response)) (\<lambda>messages.
     and_then (coordinate_service_call (ask_deepseek deps user_message uid)) (\<lambda>response_text.
     and_then (of_sum (BotResponseEvent uid response_text 0 DEFAULT_MODE (us_now s0))) (\<lambda>bot_event.
     and_then (emit deps bot_event) (\<lambda>b2.
     and_then (of_sum (create_memory_message ''store_bot_response''
                 \<lparr>d_user_id = Some uid, d_content = Some response_text, d_emotion = None,
                  d_mode = Some DEFAULT_MODE_text, d_limit = None\<rparr>)) (\<lambda>m3.
     and_then (coordinate_actor_call deps ''memory'' (memory_handle_message deps) m3) (\<lambda>r3.
     and_then (\<lambda>s. (Returned (),
                      s\<lparr>successful_flows := successful_flows s + 1,
                        avg_response_time := record_latency (avg_response_time s)\<rparr>)) (\<lambda>u1.
     and_then (log_coordination_event deps ''user_flow_complete'' (Some uid)
                 [(''response_time_seconds'', JNum 0), (''generation_time_ms'', JNum 0),
                  (''context_messages'', JNum (length messages))] ''info'') (\<lambda>u2.
     returning response_text)))))))))))))) s0"

text \<open>The \<open>except Exception\<close> clause of \<open>handle_user_message\<close>.\<close>

definition on_flow_error ::
  "'w deps \<Rightarrow> int \<Rightarrow> exn \<Rightarrow> 'w user_session \<Rightarrow> unicode outcome \<times> 'w user_session" where
  "on_flow_error deps uid e s =
     and_then (log_coordination_event deps ''user_flow_error'' (Some uid)
                 [(''error'', JStr (str_of_exn e))] ''error'')
       (\<lambda>u. returning fallback_response)
       (s\<lparr>failed_flows := failed_flows s + 1\<rparr>)"

definition handle_user_message ::
  "'w deps \<Rightarrow> unicode \<Rightarrow> int \<Rightarrow> 'w user_session \<Rightarrow> unicode outcome \<times> 'w user_session" where
  "handle_user_message deps user_message uid s =
     try_except (pipeline deps user_message uid) (on_flow_error deps uid)
       (s\<lparr>total_messages := total_messages s + 1\<rparr>)"

subsection \<open>The actor as the application wires it\<close>

text \<open>
  \<open>telegram_bot.py\<close> builds the actor on an \<open>EventStore\<close> and a \<open>MemoryActor\<close>;
  the generation service is left as the function from the message and the user to what
  awaiting it gives. The example is a session whose store holds 96 buffered events and
  cannot insert, whose memory database is empty and healthy, and whose generation service
  fails.
\<close>

definition shipped ::
  "(unicode \<Rightarrow> int \<Rightarrow> unicode outcome) \<Rightarrow> (dict event_store \<times> memory_actor) deps" where
  "shipped generate =
     \<lparr>event_store_save = (\<lambda>ev w. case save_event ev (fst w) of (r, es') \<Rightarrow> (r, (es', snd w))),
      memory_handle_message = (\<lambda>msg w. case handle_message (snd w) msg of (r, a') \<Rightarrow> (r, (fst w, a'))),
      ask_deepseek = (\<lambda>text uid w. (generate text uid, w))\<rparr>"

definition dict_lib :: "dict json_lib" where
  "dict_lib = \<lparr>json_dumps = (\<lambda>d. Some (concat (map fst d))), json_loads = (\<lambda>t. []),
                getsizeof_json = (\<lambda>ev. 49 + length (ev_data ev))\<rparr>"

definition old_event :: "dict event" where
  "old_event = ActorCoordinationEvent ''user_session'' ''memory'' ''response'' (Some 42) (Some 0) True None 0"

definition busy_store :: "dict event_store" where
  "busy_store = (EventStore dict_lib)\<lparr>event_buffer := replicate 96 old_event,
                                      insert_faults := [Some ''down'']\<rparr>"

definition empty_db :: database where
  "empty_db = \<lparr>stm_buffer = [], next_id = 0, db_now = 0, faults = []\<rparr>"

definition failing_generation :: "unicode \<Rightarrow> int \<Rightarrow> unicode outcome" where
  "failing_generation text uid = Raised (ServiceError ''503'')"

definition busy_session :: "(dict event_store \<times> memory_actor) user_session" where
  "busy_session = UserSessionActor (busy_store, MemoryActor empty_db)"

definition flow_error_event :: "int \<Rightarrow> exn \<Rightarrow> nat \<Rightarrow> dict event" where
  "flow_error_event uid e now =
     \<lparr>ev_type = ''system_event'', ev_timestamp = now, ev_user_id = Some uid,
      ev_data = [(''error'', JStr (str_of_exn e))], ev_stream_id = default_stream_id (Some uid),
      ev_version = 1, ev_metadata = [],
      ev_payload = SystemPayload ''user_flow_error'' ''error'' (Some ''user_session'')\<rparr>"




section \<open>What \<open>handle_user_message\<close> gives its caller\<close>

text \<open>
  The error record that the \<open>except\<close> clause builds is always well formed, so the
  clause is one save followed by the fallback answer.
\<close>

lemma flow_error_event_built:
  "SystemEvent ''user_flow_error'' (Some uid) [(''error'', JStr (str_of_exn e))] ''error''
      ''user_session'' now = Inr (flow_error_event uid e now)"
  by (simp add: SystemEvent_def flow_error_event_def)

lemma on_flow_error_emit:
  "on_flow_error deps uid e s =
     (case emit deps (flow_error_event uid e (us_now s)) (s\<lparr>failed_flows := failed_flows s + 1\<rparr>) of
        (Returned b, s') \<Rightarrow> (Returned fallback_response, s')
      | (Raised e', s') \<Rightarrow> (Raised e', s')
      | (Blocked, s') \<Rightarrow> (Blocked, s'))"
  by (simp add: on_flow_error_def log_coordination_event_def and_then_def of_sum_def
        flow_error_event_built returning_def split: prod.splits outcome.splits)

lemma emit_fields:
  "failed_flows (snd (emit deps ev s)) = failed_flows s"
  "saved (snd (emit deps ev s)) = saved s @ [ev]"
  "fst (emit deps ev s) = fst (event_store_save deps ev (world s))"
  by (simp_all add: emit_def split: prod.splits)

text \<open>
  No exception leaves \<open>handle_user_message\<close> when \<open>save_event\<close> raises none, and
  the store's \<open>save_event\<close> raises none.
\<close>

lemma save_event_never_raises: "fst (save_event ev s) \<noteq> Raised e"
  by (simp add: save_event_def Let_def split: sum.splits option.splits prod.splits outcome.splits)

lemma shipped_save:
  "fst (event_store_save (shipped g) ev w) = fst (save_event ev (fst w))"
  by (simp add: shipped_def split: prod.splits)

lemma handle_user_message_never_raises:
  assumes "\<And>ev w e. fst (event_store_save deps ev w) \<noteq> Raised e"
  shows "fst (handle_user_message deps user_message uid s) \<noteq> Raised e'"
proof -
  let ?s0 = "s\<lparr>total_messages := total_messages s + 1\<rparr>"
  obtain r s1 where p: "pipeline deps user_message uid ?s0 = (r, s1)"
    by (cases "pipeline deps user_message uid ?s0")
  show ?thesis
  proof (cases r)
    case (Raised e)
    let ?ev = "flow_error_event uid e (us_now s1)"
    let ?s2 = "s1\<lparr>failed_flows := failed_flows s1 + 1\<rparr>"
    obtain r2 s3 where em: "emit deps ?ev ?s2 = (r2, s3)" by (cases "emit deps ?ev ?s2")
    have "r2 \<noteq> Raised e'" for e'
      using emit_fields(3)[of deps ?ev ?s2] em assms[of ?ev "world ?s2" e'] by simp
    then show ?thesis using p Raised em
      by (cases r2) (simp_all add: handle_user_message_def try_except_def on_flow_error_emit)
  qed (use p in \<open>simp_all add: handle_user_message_def try_except_def\<close>)
qed

lemma shipped_never_raises:
  "fst (handle_user_message (shipped generate) user_message uid s) \<noteq> Raised e"
  by (rule handle_user_message_never_raises) (simp add: shipped_save save_event_never_raises)

subsection \<open>Steps that keep the collaborators usable\<close>






























subsection \<open>The collaborators of the application\<close>

text \<open>
  A usable event store returns from \<open>save_event\<close> and stays usable; the memory actor
  answers every message with a dictionary and keeps its configuration.
\<close>

lemma save_event_appends:
  assumes "\<not> buffer_lock s" "validate_event_size (es_config s) (es_lib s) ev = Inr ()"
    "length (event_buffer s) + 1 < batch_size s"
  shows "save_event ev s =
           (Returned True, s\<lparr>event_buffer := event_buffer s @ [ev],
                             io_trace := io_trace s @ [Acquire, Release]\<rparr>)"
  using assms by (simp add: save_event_def acquire_def release_def Let_def)

lemma validate_event_config: "validate_event_size EVENT_CONFIG lib ev = Inr ()"
  by (simp add: validate_event_size_def EVENT_CONFIG_def)

lemma upt3: "[0 ..< 3] = [0, 1, 2]"
  by (simp add: upt_rec)











subsection \<open>The answer\<close>




section \<open>An error record that cannot be saved\<close>

text \<open>
  The first example session: 96 events are buffered, the generation service fails, and the
  store cannot insert. Three events are saved on the way to the failure, so the store
  holds 99 when the \<open>except\<close> clause runs.
\<close>

lemma save_event_blocked:
  assumes "\<not> buffer_lock s" "validate_event_size (es_config s) (es_lib s) ev = Inr ()"
    "batch_size s \<le> length (event_buffer s) + 1" "insert_faults s = Some m # fs"
  shows "fst (save_event ev s) = Blocked"
proof -
  let ?s2 = "s\<lparr>buffer_lock := True, io_trace := io_trace s @ [Acquire],
               event_buffer := event_buffer s @ [ev]\<rparr>"
  have "\<exists>s'. flush_buffer ?s2 = (Blocked, s') \<and> event_buffer s' = [] \<and> buffer_lock s' \<and>
              events_table s' = events_table ?s2 \<and> batch_size s' = batch_size ?s2"
    by (rule flush_buffer_locked_fault[where m = m and fs = fs]) (use assms in simp_all)
  then obtain s' where "flush_buffer ?s2 = (Blocked, s')" by auto
  then show ?thesis using assms by (simp add: save_event_def acquire_def Let_def)
qed

lemma busy_store_fields:
  "\<not> buffer_lock busy_store" "event_buffer busy_store = replicate 96 old_event"
  "insert_faults busy_store = [Some ''down'']" "batch_size busy_store = 100"
  "es_config busy_store = EVENT_CONFIG" "es_lib busy_store = dict_lib"
  by (simp_all add: busy_store_def EventStore_def EVENT_CONFIG_def)

lemma busy_pipeline:
  "fst (pipeline (shipped failing_generation) [104, 105] 42
          (busy_session\<lparr>total_messages := total_messages busy_session + 1\<rparr>))
     = Raised (ServiceError ''503'') \<and>
   \<not> buffer_lock (fst (world (snd (pipeline (shipped failing_generation) [104, 105] 42
          (busy_session\<lparr>total_messages := total_messages busy_session + 1\<rparr>))))) \<and>
   length (event_buffer (fst (world (snd (pipeline (shipped failing_generation) [104, 105] 42
          (busy_session\<lparr>total_messages := total_messages busy_session + 1\<rparr>)))))) = 99 \<and>
   insert_faults (fst (world (snd (pipeline (shipped failing_generation) [104, 105] 42
          (busy_session\<lparr>total_messages := total_messages busy_session + 1\<rparr>))))) = [Some ''down''] \<and>
   batch_size (fst (world (snd (pipeline (shipped failing_generation) [104, 105] 42
          (busy_session\<lparr>total_messages := total_messages busy_session + 1\<rparr>))))) = 100 \<and>
   es_config (fst (world (snd (pipeline (shipped failing_generation) [104, 105] 42
          (busy_session\<lparr>total_messages := total_messages busy_session + 1\<rparr>))))) = EVENT_CONFIG \<and>
   failed_flows (snd (pipeline (shipped failing_generation) [104, 105] 42
          (busy_session\<lparr>total_messages := total_messages busy_session + 1\<rparr>))) = 0 \<and>
   length (stm_buffer (db (snd (world (snd (pipeline (shipped failing_generation) [104, 105] 42
          (busy_session\<lparr>total_messages := total_messages busy_session + 1\<rparr>))))))) = 1"
proof -
  have sv: "\<And>ev s. \<not> buffer_lock s \<Longrightarrow> es_config s = EVENT_CONFIG \<Longrightarrow>
              length (event_buffer s) + 1 < batch_size s \<Longrightarrow>
              save_event ev s = (Returned True, s\<lparr>event_buffer := event_buffer s @ [ev],
                             io_trace := io_trace s @ [Acquire, Release]\<rparr>)"
    by (rule save_event_appends) (simp_all add: validate_event_config)
  show ?thesis
    by (simp add: pipeline_def and_then_def of_sum_def UserMessageEvent_def
          user_message_max_text_length_def emit_def shipped_def busy_session_def
          UserSessionActor_def busy_store_fields sv create_memory_message_def known_types_def
          coordinate_actor_call_def COORDINATION_CONFIG_def upt3 wait_for_def in_world_def
          handle_message_def type_and_data_def dispatch_def store_user_message_def
          MemoryActor_def MEMORY_CONFIG_def empty_db_def storage_call_def insert_row_def
          check_and_cleanup_def count_and_spawn_def count_rows_def record_latency_def
          returning_def empty_data_def get_conversation_context_def newest_first_def
          oldest_first_def message_dict_def response_messages_def coordinate_service_call_def
          failing_generation_def Let_def)
qed

text \<open>
  When the \<open>try\<close> block raises and the save of the error record does not return,
  \<open>handle_user_message\<close> has incremented the failed-flows counter but never returns
  the fallback answer: it stays suspended in \<open>save_event\<close>. No exception reaches the
  caller, and no answer either.
\<close>

lemma handle_user_message_blocks_on_error_record:
  assumes "fst (pipeline deps user_message uid (s\<lparr>total_messages := total_messages s + 1\<rparr>)) = Raised e"
    and "s1 = snd (pipeline deps user_message uid (s\<lparr>total_messages := total_messages s + 1\<rparr>))"
    and "fst (event_store_save deps (flow_error_event uid e (us_now s1)) (world s1)) = Blocked"
  shows "fst (handle_user_message deps user_message uid s) = Blocked \<and>
         failed_flows (snd (handle_user_message deps user_message uid s)) = failed_flows s1 + 1 \<and>
         fst (handle_user_message deps user_message uid s) \<noteq> Returned fallback_response"
proof -
  let ?s0 = "s\<lparr>total_messages := total_messages s + 1\<rparr>"
  let ?ev = "flow_error_event uid e (us_now s1)"
  let ?s2 = "s1\<lparr>failed_flows := failed_flows s1 + 1\<rparr>"
  have p: "pipeline deps user_message uid ?s0 = (Raised e, s1)"
    using assms(1,2) by (cases "pipeline deps user_message uid ?s0") simp
  have h: "handle_user_message deps user_message uid s = on_flow_error deps uid e s1"
    using p by (simp add: handle_user_message_def try_except_def)
  obtain r s3 where em: "emit deps ?ev ?s2 = (r, s3)" by (cases "emit deps ?ev ?s2")
  have r: "r = Blocked" using emit_fields(3)[of deps ?ev ?s2] em assms(3) by simp
  have f: "failed_flows s3 = failed_flows s1 + 1" using emit_fields(1)[of deps ?ev ?s2] em by simp
  have "on_flow_error deps uid e s1 = (Blocked, s3)"
    using em r by (simp add: on_flow_error_emit)
  then show ?thesis using h f by simp
qed

text \<open>
  At the example session the error record is the hundredth buffered event, the flush it
  triggers cannot insert, and the store waits for its own lock.
\<close>

lemma busy_session_blocks:
  "fst (handle_user_message (shipped failing_generation) [104, 105] 42 busy_session) = Blocked \<and>
   failed_flows (snd (handle_user_message (shipped failing_generation) [104, 105] 42 busy_session)) = 1 \<and>
   fst (handle_user_message (shipped failing_generation) [104, 105] 42 busy_session)
     \<noteq> Returned fallback_response"
proof -
  let ?deps = "shipped failing_generation"
  let ?s0 = "busy_session\<lparr>total_messages := total_messages busy_session + 1\<rparr>"
  let ?s1 = "snd (pipeline ?deps [104, 105] 42 ?s0)"
  let ?es = "fst (world ?s1)"
  note bp = busy_pipeline
  have h1: "fst (pipeline ?deps [104, 105] 42 ?s0) = Raised (ServiceError ''503'')"
    using bp by (elim conjE)
  have lk: "\<not> buffer_lock ?es" using bp by (elim conjE)
  have len: "length (event_buffer ?es) = 99" using bp by (elim conjE)
  have flt: "insert_faults ?es = Some ''down'' # []" using bp by (elim conjE)
  have bs: "batch_size ?es = 100" using bp by (elim conjE)
  have cf: "es_config ?es = EVENT_CONFIG" using bp by (elim conjE)
  have ff: "failed_flows ?s1 = 0" using bp by (elim conjE)
  have val: "validate_event_size (es_config ?es) (es_lib ?es)
               (flow_error_event 42 (ServiceError ''503'') (us_now ?s1)) = Inr ()"
    unfolding cf by (rule validate_event_config)
  have le: "batch_size ?es \<le> length (event_buffer ?es) + 1" unfolding bs len by simp
  have blk: "fst (save_event (flow_error_event 42 (ServiceError ''503'') (us_now ?s1)) ?es) = Blocked"
    by (rule save_event_blocked[OF lk val le flt])
  have h3: "fst (event_store_save ?deps (flow_error_event 42 (ServiceError ''503'') (us_now ?s1))
                   (world ?s1)) = Blocked"
    unfolding shipped_save by (rule blk)
  show ?thesis
    using handle_user_message_blocks_on_error_record[OF h1 refl h3] unfolding ff by simp
qed

end
